theory Spec2Isabelle
  imports Complex_Main "HOL-Library.Word"
begin

section \<open>The retrying client: \<open>call_virtual_try_on\<close> (virtual_try_on_demo.py)\<close>

text \<open>
  What \<open>requests.post\<close> hands back: either a response object, of which the function
  reads \<open>status_code\<close>, \<open>text\<close> and \<open>json()\<close> (\<open>None\<close> when the body is not JSON, where
  \<open>json()\<close> raises), or an exception of the transport (connection error, timeout), which
  is a \<open>RequestException\<close> but not an \<open>HTTPError\<close>.
\<close>

record 'j response =
  status_code :: int
  body_text :: string
  body_json :: "'j option"

datatype 'j post_result = Responded "'j response" | Transport_failure string

record 'p request =
  url :: string
  headers :: "(string \<times> string) list"
  json_payload :: 'p
  timeout :: int

text \<open>
  The exceptions that can leave the function: those of \<open>requests\<close>, the \<open>OverflowError\<close>
  of the float product \<open>backoff_seconds * (2 ** attempt)\<close> ("int too large to convert to
  float"), and the \<open>ValueError\<close> ("sleep length must be non-negative") and
  \<open>OverflowError\<close> ("timestamp out of range") of \<open>time.sleep\<close>.
\<close>

datatype exn =
  HTTPError int string
  | TransportError string
  | JSONDecodeError
  | Float_OverflowError
  | Sleep_ValueError
  | Sleep_OverflowError

datatype failure =
  Raised exn
  | SystemExit_unexpected_retry_loop_exit "exn option"

text \<open>
  The effects of one call, in the order they happen: a POST issued, a line printed, a
  sleep that \<open>time.sleep\<close> carried out. \<open>posts\<close> counts the POSTs issued so far.
\<close>

datatype event =
  POST
  | Print_status int
  | Print_response_body string
  | Sleep real

record client_state =
  posts :: nat
  events :: "event list"

definition initial_state :: client_state where
  "initial_state = \<lparr>posts = 0, events = []\<rparr>"

fun sleeps_of :: "event list \<Rightarrow> real list" where
  "sleeps_of [] = []"
| "sleeps_of (Sleep x # es) = x # sleeps_of es"
| "sleeps_of (e # es) = sleeps_of es"

text \<open>\<open>Response.raise_for_status\<close> raises for 4xx and 5xx; \<open>Response.ok\<close> is its negation.\<close>

definition raise_for_status :: "'j response \<Rightarrow> exn + unit" where
  "raise_for_status r =
     (if 400 \<le> status_code r \<and> status_code r < 600
      then Inl (HTTPError (status_code r) (body_text r)) else Inr ())"

definition ok :: "'j response \<Rightarrow> bool" where
  "ok r = (case raise_for_status r of Inl _ \<Rightarrow> False | Inr _ \<Rightarrow> True)"

text \<open>The body of the \<open>try\<close> block, given what the POST came back with.\<close>

definition try_block :: "'j post_result \<Rightarrow> event list \<times> (exn + 'j)" where
  "try_block res =
     (case res of
        Transport_failure m \<Rightarrow> ([], Inl (TransportError m))
      | Responded r \<Rightarrow>
          (let out = (if \<not> ok r then [Print_status (status_code r), Print_response_body (body_text r)]
                      else [])
           in case raise_for_status r of
                Inl e \<Rightarrow> (out, Inl e)
              | Inr _ \<Rightarrow>
                  (case body_json r of
                     None \<Rightarrow> (out, Inl JSONDecodeError)
                   | Some j \<Rightarrow> (out, Inr j))))"

text \<open>
  \<open>sleep_for = backoff_seconds * (2 ** attempt)\<close>: \<open>2 ** attempt\<close> is an exact integer,
  and converting it to a float raises \<open>OverflowError\<close> from \<open>2 ** 1024\<close> on, whatever the
  float it is multiplied with. \<open>backoff_seconds\<close> is a finite Python float, read as a real
  number; \<open>attempt\<close> comes from \<open>range\<close> and is never negative.
\<close>

definition sleep_for_of :: "real \<Rightarrow> int \<Rightarrow> exn + real" where
  "sleep_for_of backoff_seconds attempt =
     (if attempt \<ge> 1024 then Inl Float_OverflowError
      else Inr (backoff_seconds * 2 ^ nat attempt))"

text \<open>
  \<open>time.sleep\<close> refuses a negative duration with \<open>ValueError\<close> and a duration beyond
  what the platform's clock type holds with \<open>OverflowError\<close>. The longest duration the
  platform accepts, \<open>max_sleep\<close>, is a parameter. A float product that overflows to
  infinity is beyond it as well.
\<close>

definition time_sleep :: "real \<Rightarrow> real \<Rightarrow> exn + unit" where
  "time_sleep max_sleep secs =
     (if secs < 0 then Inl Sleep_ValueError
      else if max_sleep < secs then Inl Sleep_OverflowError
      else Inr ())"

text \<open>
  The \<open>for attempt in range(max_retries + 1)\<close> loop, from the iteration \<open>attempt\<close> on.
  The network is a function of the request and of the number of POSTs issued before.
  Only \<open>requests.HTTPError\<close> is caught; every other exception leaves the function, and
  so does an exception raised inside the handler, by the product or by \<open>time.sleep\<close>.
\<close>

function retry_loop ::
  "('p request \<Rightarrow> nat \<Rightarrow> 'j post_result) \<Rightarrow> real \<Rightarrow> 'p request \<Rightarrow> int \<Rightarrow> real \<Rightarrow>
   int \<Rightarrow> exn option \<Rightarrow> client_state \<Rightarrow> client_state \<times> (failure + 'j)" where
  "retry_loop post max_sleep req max_retries backoff_seconds attempt last_exc s =
     (if attempt < max_retries + 1 then
        (case try_block (post req (posts s)) of (out, r) \<Rightarrow>
           (let s1 = s\<lparr>posts := Suc (posts s), events := events s @ POST # out\<rparr>
            in case r of
                 Inr j \<Rightarrow> (s1, Inr j)
               | Inl (HTTPError c b) \<Rightarrow>
                   (if attempt \<ge> max_retries then (s1, Inl (Raised (HTTPError c b)))
                    else
                      (case sleep_for_of backoff_seconds attempt of
                         Inl e \<Rightarrow> (s1, Inl (Raised e))
                       | Inr sleep_for \<Rightarrow>
                           (case time_sleep max_sleep sleep_for of
                              Inl e \<Rightarrow> (s1, Inl (Raised e))
                            | Inr _ \<Rightarrow>
                                retry_loop post max_sleep req max_retries backoff_seconds
                                  (attempt + 1) (Some (HTTPError c b))
                                  (s1\<lparr>events := events s1 @ [Sleep sleep_for]\<rparr>))))
               | Inl e \<Rightarrow> (s1, Inl (Raised e))))
      else (s, Inl (SystemExit_unexpected_retry_loop_exit last_exc)))"
  by pat_completeness auto
termination
  by (relation "measure (\<lambda>(post, max_sleep, req, max_retries, backoff_seconds, attempt, last_exc, s).
        nat (max_retries + 1 - attempt))") auto

definition predict_url :: "string \<Rightarrow> string \<Rightarrow> string \<Rightarrow> string" where
  "predict_url project location model =
     ''https://'' @ location @ ''-aiplatform.googleapis.com/v1/projects/'' @ project
     @ ''/locations/'' @ location @ ''/publishers/google/models/'' @ model @ '':predict''"

definition build_request :: "string \<Rightarrow> string \<Rightarrow> string \<Rightarrow> string \<Rightarrow> 'p \<Rightarrow> 'p request" where
  "build_request project location model token payload =
     \<lparr>url = predict_url project location model,
      headers = [(''Authorization'', ''Bearer '' @ token), (''Content-Type'', ''application/json'')],
      json_payload = payload,
      timeout = 120\<rparr>"

definition call_virtual_try_on ::
  "('p request \<Rightarrow> nat \<Rightarrow> 'j post_result) \<Rightarrow> real \<Rightarrow>
   string \<Rightarrow> string \<Rightarrow> string \<Rightarrow> string \<Rightarrow> 'p \<Rightarrow>
   int \<Rightarrow> real \<Rightarrow> client_state \<times> (failure + 'j)" where
  "call_virtual_try_on post max_sleep project location model token payload
       max_retries backoff_seconds =
     retry_loop post max_sleep (build_request project location model token payload)
       max_retries backoff_seconds 0 None initial_state"

text \<open>An attempt fails with an HTTP error status when the endpoint answers 4xx or 5xx.\<close>

definition http_failure :: "'j post_result \<Rightarrow> bool" where
  "http_failure res =
     (case res of Responded r \<Rightarrow> 400 \<le> status_code r \<and> status_code r < 600
      | Transport_failure _ \<Rightarrow> False)"

definition http_error_of :: "'j post_result \<Rightarrow> exn" where
  "http_error_of res =
     (case res of Responded r \<Rightarrow> HTTPError (status_code r) (body_text r)
      | Transport_failure m \<Rightarrow> TransportError m)"

definition failure_prints :: "'j post_result \<Rightarrow> event list" where
  "failure_prints res =
     (case res of Responded r \<Rightarrow> [Print_status (status_code r), Print_response_body (body_text r)]
      | Transport_failure _ \<Rightarrow> [])"

subsection \<open>Concrete endpoints\<close>

text \<open>
  An endpoint that always answers 503, one whose connection always fails, one that always
  answers 304 with a JSON body, one that answers 503 once and then 200 with a JSON body,
  and one that answers 503 once and then 204 with an empty body.
\<close>

definition always_503 :: "unit request \<Rightarrow> nat \<Rightarrow> string post_result" where
  "always_503 req k =
     Responded \<lparr>status_code = 503, body_text = ''unavailable'', body_json = None\<rparr>"

definition connection_refused :: "unit request \<Rightarrow> nat \<Rightarrow> string post_result" where
  "connection_refused req k = Transport_failure ''connection refused''"

definition always_304 :: "unit request \<Rightarrow> nat \<Rightarrow> string post_result" where
  "always_304 req k =
     Responded \<lparr>status_code = 304, body_text = ''{}'', body_json = Some ''cached''\<rparr>"

definition fails_once :: "unit request \<Rightarrow> nat \<Rightarrow> string post_result" where
  "fails_once req k =
     (if k = 0 then Responded \<lparr>status_code = 503, body_text = ''unavailable'', body_json = None\<rparr>
      else Responded \<lparr>status_code = 200, body_text = ''{}'', body_json = Some ''predictions''\<rparr>)"

definition fails_once_then_204 :: "unit request \<Rightarrow> nat \<Rightarrow> string post_result" where
  "fails_once_then_204 req k =
     (if k = 0 then Responded \<lparr>status_code = 503, body_text = ''unavailable'', body_json = None\<rparr>
      else Responded \<lparr>status_code = 204, body_text = [], body_json = None\<rparr>)"

section \<open>The image pipeline (api_app.py)\<close>

text \<open>
  A Pillow image is followed through the pipeline by its mode and its size. The pixel
  contents are produced by Pillow's decoders, resampling filters and blur and by the
  segmentation model; they are not computed here. The two places where the code reads
  or rewrites pixel values (the alpha look-up table and the two luminance readings) are
  modelled on the values themselves.
\<close>

datatype mode = Mode_L | Mode_RGB | Mode_RGBA

record image =
  mode :: mode
  width :: int
  height :: int

definition size_of :: "image \<Rightarrow> int \<times> int" where
  "size_of im = (width im, height im)"

datatype error =
  Base64Error
  | UnidentifiedImageError
  | SegmenterError string
  | TypeError string
  | ValueError string
  | ZeroDivisionError
  | IndexError

datatype call =
  B64decode
  | Image_open
  | Convert mode
  | Save_PNG
  | Rembg_new_session string
  | Rembg_remove
  | Image_fromarray
  | Resize "int \<times> int"
  | Thumbnail "int \<times> int"
  | ImageOps_fit "int \<times> int"
  | Split
  | Point
  | Putalpha
  | Image_new mode "int \<times> int"
  | Draw_ellipse "int \<times> int \<times> int \<times> int"
  | GaussianBlur int
  | Grayscale
  | Getpixel
  | Enhance_brightness real
  | Alpha_composite "int \<times> int"
  | Save_JPEG int
  | B64encode

text \<open>
  A run of the pipeline: the library calls made, in order, and either the exception that
  ended the run or its value.
\<close>

type_synonym 'a run = "call list \<times> (error + 'a)"

definition ret :: "'a \<Rightarrow> 'a run" where
  "ret x = ([], Inr x)"

definition step :: "call \<Rightarrow> error + 'a \<Rightarrow> 'a run" where
  "step c r = ([c], r)"

definition and_then :: "'a run \<Rightarrow> ('a \<Rightarrow> 'b run) \<Rightarrow> 'b run" where
  "and_then m f =
     (case m of
        (calls, Inl e) \<Rightarrow> (calls, Inl e)
      | (calls, Inr x) \<Rightarrow> (case f x of (calls', r) \<Rightarrow> (calls @ calls', r)))"

text \<open>
  Python's \<open>int(x)\<close> on a float truncates towards zero. The products of a side with
  the float constants of the pipeline (1.35, 0.78, 0.55, 0.08, 0.88, 0.14) are read as
  exact products.
\<close>

definition py_int :: "real \<Rightarrow> int" where
  "py_int x = (if 0 \<le> x then \<lfloor>x\<rfloor> else \<lceil>x\<rceil>)"

subsection \<open>The Pillow operations, on mode and size\<close>

definition convert :: "image \<Rightarrow> mode \<Rightarrow> image" where
  "convert im m = im\<lparr>mode := m\<rparr>"

text \<open>
  \<open>Image.resize\<close> copies when the size is unchanged and otherwise refuses a target
  with a side below one pixel.
\<close>

definition resize :: "image \<Rightarrow> int \<times> int \<Rightarrow> error + image" where
  "resize im sz =
     (if size_of im = sz then Inr im
      else if fst sz < 1 \<or> snd sz < 1 then Inl (ValueError ''height and width must be > 0'')
      else Inr (im\<lparr>width := fst sz, height := snd sz\<rparr>))"

text \<open>
  \<open>ImageOps.fit\<close> divides width by height for the image and for the target, chooses the
  centred crop box of the target's aspect and resizes that box to the target size.
\<close>

definition fit :: "image \<Rightarrow> int \<times> int \<Rightarrow> error + image" where
  "fit im sz =
     (if height im = 0 \<or> snd sz = 0 then Inl ZeroDivisionError
      else if fst sz < 1 \<or> snd sz < 1 then Inl (ValueError ''height and width must be > 0'')
      else Inr (im\<lparr>width := fst sz, height := snd sz\<rparr>))"

definition image_new :: "mode \<Rightarrow> int \<times> int \<Rightarrow> error + image" where
  "image_new m sz =
     (if fst sz < 0 \<or> snd sz < 0 then Inl (ValueError ''Width and height must be >= 0'')
      else Inr \<lparr>mode = m, width = fst sz, height = snd sz\<rparr>)"

text \<open>
  \<open>Image.alpha_composite\<close> in place: both images are RGBA, the overlay is blended into
  the box at \<open>dest\<close>, and the destination keeps its size.
\<close>

definition alpha_composite :: "image \<Rightarrow> image \<Rightarrow> int \<times> int \<Rightarrow> error + image" where
  "alpha_composite dst overlay dest =
     (if mode dst \<noteq> Mode_RGBA \<or> mode overlay \<noteq> Mode_RGBA then Inl (ValueError ''image has wrong mode'')
      else Inr dst)"

subsection \<open>Edge cleanup: the alpha look-up table\<close>

text \<open>The function given to \<open>point\<close>: \<open>lambda a: 255 if a > 200 else a\<close>.\<close>

definition edge_cleanup :: "int \<Rightarrow> int" where
  "edge_cleanup a = (if a > 200 then 255 else a)"

text \<open>
  \<open>Image.point\<close> on an 8-bit band evaluates the function once on each of \<open>0 .. 255\<close>,
  stores the results as bytes, and maps every pixel through that table.
\<close>

definition clip8 :: "int \<Rightarrow> 8 word" where
  "clip8 v = word_of_int (max 0 (min 255 v))"

definition point :: "(int \<Rightarrow> int) \<Rightarrow> 8 word list \<Rightarrow> 8 word list" where
  "point f band = (let lut = map (\<lambda>i. clip8 (f i)) [0..255] in map (\<lambda>p. lut ! unat p) band)"

subsection \<open>Luminance matching\<close>

text \<open>What \<open>getpixel\<close> may hand back: a number, a tuple of band values, or \<open>None\<close>.\<close>

datatype pixel_value = Px_int int | Px_tuple "int list" | Px_none

text \<open>\<open>if isinstance(x, tuple): x = x[0]\<close>\<close>

definition first_band :: "pixel_value \<Rightarrow> error + int option" where
  "first_band p =
     (case p of
        Px_tuple [] \<Rightarrow> Inl IndexError
      | Px_tuple (v # _) \<Rightarrow> Inr (Some v)
      | Px_int v \<Rightarrow> Inr (Some v)
      | Px_none \<Rightarrow> Inr None)"

definition truediv :: "real \<Rightarrow> real \<Rightarrow> error + real" where
  "truediv a b = (if b = 0 then Inl ZeroDivisionError else Inr (a / b))"

text \<open>
  The guarded division and the clamp. The result is the factor handed to
  \<open>ImageEnhance.Brightness(fg).enhance\<close>, or \<open>None\<close> when the subject is left as it is.
  Luminances are Python floats, read as real numbers.
\<close>

definition brightness_factor :: "real \<Rightarrow> real \<Rightarrow> error + real option" where
  "brightness_factor bg_luma fg_luma =
     (if fg_luma > 0 then
        (case truediv bg_luma fg_luma of
           Inl e \<Rightarrow> Inl e
         | Inr q \<Rightarrow> Inr (Some (max 0.85 (min 1.15 q))))
      else Inr None)"

definition luminance_matching :: "pixel_value \<Rightarrow> pixel_value \<Rightarrow> error + real option" where
  "luminance_matching bg_px fg_px =
     (case first_band bg_px of
        Inl e \<Rightarrow> Inl e
      | Inr bg1 \<Rightarrow>
          (case first_band fg_px of
             Inl e \<Rightarrow> Inl e
           | Inr fg1 \<Rightarrow>
               (case (bg1, fg1) of
                  (Some b, Some f) \<Rightarrow> brightness_factor (real_of_int b) (real_of_int f)
                | _ \<Rightarrow> brightness_factor 128 128)))"

subsection \<open>\<open>composite_on_background\<close>\<close>

text \<open>
  What the segmenter may return, by the \<open>isinstance\<close> tests of the code: bytes, a Pillow
  image, a numpy array, or a value of some other type (named by its type).
\<close>

datatype ('b, 'n) rembg_output =
  Out_bytes 'b
  | Out_image image
  | Out_ndarray 'n
  | Out_other string

record matting =
  alpha_matting :: bool
  alpha_matting_foreground_threshold :: int
  alpha_matting_background_threshold :: int
  alpha_matting_erode_size :: int

text \<open>
  The collaborators outside the repository: the base64 and image codecs (\<open>None\<close> where
  they raise), the segmenter, and the two luminance readings, which depend on pixel
  contents.
\<close>

record ('b, 'n) env =
  b64decode :: "string \<Rightarrow> 'b option"
  image_open :: "'b \<Rightarrow> image option"
  save_png :: "image \<Rightarrow> 'b"
  rembg_remove :: "'b \<Rightarrow> string \<Rightarrow> matting \<Rightarrow> error + ('b, 'n) rembg_output"
  fromarray :: "'n \<Rightarrow> image option"
  bg_luma_pixel :: pixel_value
  fg_luma_pixel :: pixel_value

definition decode_b64 :: "('b, 'n) env \<Rightarrow> string \<Rightarrow> 'b run" where
  "decode_b64 env s =
     step B64decode (case b64decode env s of None \<Rightarrow> Inl Base64Error | Some b \<Rightarrow> Inr b)"

definition open_rgba :: "('b, 'n) env \<Rightarrow> 'b \<Rightarrow> image run" where
  "open_rgba env b =
     and_then (step Image_open
                 (case image_open env b of None \<Rightarrow> Inl UnidentifiedImageError | Some im \<Rightarrow> Inr im))
       (\<lambda>im. step (Convert Mode_RGBA) (Inr (convert im Mode_RGBA)))"

definition decode_inputs :: "('b, 'n) env \<Rightarrow> string \<Rightarrow> string \<Rightarrow> (image \<times> image) run" where
  "decode_inputs env foreground_b64 background_b64 =
     and_then (decode_b64 env foreground_b64) (\<lambda>fg_bytes.
     and_then (decode_b64 env background_b64) (\<lambda>bg_bytes.
     and_then (open_rgba env fg_bytes) (\<lambda>foreground.
     and_then (open_rgba env bg_bytes) (\<lambda>background.
     ret (foreground, background)))))"

definition segment :: "('b, 'n) env \<Rightarrow> image \<Rightarrow> image run" where
  "segment env foreground =
     and_then (step Save_PNG (Inr (save_png env foreground))) (\<lambda>foreground_bytes.
     and_then (step (Rembg_new_session ''u2net'') (Inr ''u2net'')) (\<lambda>session.
     and_then (step Rembg_remove
                 (rembg_remove env foreground_bytes session
                    \<lparr>alpha_matting = True,
                     alpha_matting_foreground_threshold = 240,
                     alpha_matting_background_threshold = 10,
                     alpha_matting_erode_size = 10\<rparr>)) (\<lambda>cutout_result.
     (case cutout_result of
        Out_bytes b \<Rightarrow> open_rgba env b
      | Out_image im \<Rightarrow> step (Convert Mode_RGBA) (Inr (convert im Mode_RGBA))
      | Out_ndarray a \<Rightarrow>
          and_then (step Image_fromarray
                      (case fromarray env a of
                         None \<Rightarrow> Inl (TypeError ''Cannot handle this data type'')
                       | Some im \<Rightarrow> Inr im))
            (\<lambda>im. step (Convert Mode_RGBA) (Inr (convert im Mode_RGBA)))
      | Out_other ty \<Rightarrow> (([], Inl (TypeError (''Unexpected rembg output type: '' @ ty))))))))"

definition fit_background :: "image \<Rightarrow> image \<Rightarrow> image run" where
  "fit_background background foreground =
     (let zoom = 1.35;
          zoomed = (py_int (real_of_int (width background) * zoom),
                    py_int (real_of_int (height background) * zoom))
      in and_then (step (Resize zoomed) (resize background zoomed)) (\<lambda>bg_zoom.
         step (ImageOps_fit (size_of foreground)) (fit bg_zoom (size_of foreground))))"

definition scale_subject :: "image \<Rightarrow> image run" where
  "scale_subject foreground =
     (let scale = 0.78;
          fg_target = (py_int (real_of_int (width foreground) * scale),
                       py_int (real_of_int (height foreground) * scale))
      in and_then (step (Resize fg_target) (resize foreground fg_target)) (\<lambda>fg.
         and_then (step Split (Inr ())) (\<lambda>_.
         and_then (step Point (Inr ())) (\<lambda>_.
         step Putalpha (Inr fg)))))"

definition ground_shadow :: "image \<Rightarrow> image run" where
  "ground_shadow fg =
     and_then (step (Image_new Mode_RGBA (size_of fg)) (image_new Mode_RGBA (size_of fg))) (\<lambda>shadow.
       (let fg_w = width fg;
            fg_h = height fg;
            ellipse_width = py_int (real_of_int fg_w * 0.55);
            ellipse_height = py_int (real_of_int fg_h * 0.08);
            ellipse_x = (width fg - ellipse_width) div 2;
            ellipse_y = py_int (real_of_int fg_h * 0.88)
        in and_then (step (Draw_ellipse (ellipse_x, ellipse_y,
                              ellipse_x + ellipse_width, ellipse_y + ellipse_height)) (Inr ())) (\<lambda>_.
           step (GaussianBlur 18) (Inr shadow))))"

definition match_luminance :: "('b, 'n) env \<Rightarrow> image \<Rightarrow> image run" where
  "match_luminance env fg =
     and_then (step Grayscale (Inr ())) (\<lambda>_.
     and_then (step (Resize (1, 1)) (Inr ())) (\<lambda>_.
     and_then (step Getpixel (Inr (bg_luma_pixel env))) (\<lambda>bg_luma.
     and_then (step Grayscale (Inr ())) (\<lambda>_.
     and_then (step (Resize (1, 1)) (Inr ())) (\<lambda>_.
     and_then (step Getpixel (Inr (fg_luma_pixel env))) (\<lambda>fg_luma.
     (case luminance_matching bg_luma fg_luma of
        Inl e \<Rightarrow> ([], Inl e)
      | Inr None \<Rightarrow> ret fg
      | Inr (Some brightness) \<Rightarrow> step (Enhance_brightness brightness) (Inr fg))))))))"

definition composite_on_background :: "('b, 'n) env \<Rightarrow> string \<Rightarrow> string \<Rightarrow> image run" where
  "composite_on_background env foreground_b64 background_b64 =
     and_then (decode_inputs env foreground_b64 background_b64) (\<lambda>(foreground0, background).
     and_then (segment env foreground0) (\<lambda>foreground.
     and_then (fit_background background foreground) (\<lambda>bg.
     and_then (scale_subject foreground) (\<lambda>fg0.
     and_then (ground_shadow fg0) (\<lambda>shadow.
       (let offset = ((width bg - width fg0) div 2, py_int (real_of_int (height bg) * 0.14));
            shadow_offset = (fst offset, snd offset)
        in and_then (match_luminance env fg0) (\<lambda>fg.
           and_then (step (Alpha_composite shadow_offset) (alpha_composite bg shadow shadow_offset)) (\<lambda>bg1.
           and_then (step (Alpha_composite offset) (alpha_composite bg1 fg offset)) (\<lambda>bg2.
           and_then (step (Convert Mode_RGB) (Inr (convert bg2 Mode_RGB))) (\<lambda>output.
           and_then (step (Save_JPEG 92) (Inr ())) (\<lambda>_.
           step B64encode (Inr output))))))))))))"


subsection \<open>\<open>resize_and_encode\<close>\<close>

text \<open>
  Pillow's \<open>Image.thumbnail\<close>: \<open>round_aspect\<close> picks, of the floor and the ceiling of
  the proportional length, the one whose aspect is closer (the floor on a tie), and never
  less than one pixel. The divisions are Python float divisions, read as exact here.
\<close>

definition round_aspect :: "real \<Rightarrow> (int \<Rightarrow> real) \<Rightarrow> int" where
  "round_aspect number key =
     max (let lo = \<lfloor>number\<rfloor>; hi = \<lceil>number\<rceil> in if key hi < key lo then hi else lo) 1"

definition preserve_aspect_ratio :: "image \<Rightarrow> int \<times> int \<Rightarrow> error + (int \<times> int) option" where
  "preserve_aspect_ratio im provided_size =
     (let x = fst provided_size; y = snd provided_size
      in if x \<ge> width im \<and> y \<ge> height im then Inr None
         else
           (case truediv (real_of_int (width im)) (real_of_int (height im)) of
              Inl e \<Rightarrow> Inl e
            | Inr aspect \<Rightarrow>
                (case truediv (real_of_int x) (real_of_int y) of
                   Inl e \<Rightarrow> Inl e
                 | Inr r \<Rightarrow>
                     if r \<ge> aspect then
                       Inr (Some (round_aspect (real_of_int y * aspect)
                                    (\<lambda>n. \<bar>aspect - real_of_int n / real_of_int y\<bar>), y))
                     else
                       (case truediv (real_of_int x) aspect of
                          Inl e \<Rightarrow> Inl e
                        | Inr number \<Rightarrow>
                            Inr (Some (x, round_aspect number
                                         (\<lambda>n. if n = 0 then 0
                                               else \<bar>aspect - real_of_int x / real_of_int n\<bar>)))))))"

definition thumbnail :: "image \<Rightarrow> int \<times> int \<Rightarrow> error + image" where
  "thumbnail im sz =
     (case preserve_aspect_ratio im sz of
        Inl e \<Rightarrow> Inl e
      | Inr None \<Rightarrow> Inr im
      | Inr (Some sz') \<Rightarrow> if size_of im \<noteq> sz' then resize im sz' else Inr im)"

definition resize_and_encode :: "('b, 'n) env \<Rightarrow> string \<Rightarrow> int \<Rightarrow> image run" where
  "resize_and_encode env base64_str max_dim =
     and_then (decode_b64 env base64_str) (\<lambda>image_bytes.
     and_then (step Image_open
                 (case image_open env image_bytes of
                    None \<Rightarrow> Inl UnidentifiedImageError | Some im \<Rightarrow> Inr im)) (\<lambda>im0.
     and_then (step (Convert Mode_RGB) (Inr (convert im0 Mode_RGB))) (\<lambda>im1.
     and_then (step (Thumbnail (max_dim, max_dim)) (thumbnail im1 (max_dim, max_dim))) (\<lambda>im2.
     and_then (step (Save_JPEG 90) (Inr ())) (\<lambda>_.
     step B64encode (Inr im2))))))"

subsection \<open>A concrete environment\<close>

text \<open>
  Codecs that decode the string \<open>''fg''\<close> to one given image and \<open>''bg''\<close> to another, a
  segmenter with a fixed answer, and mid-grey luminance readings.
\<close>

definition fixed_env ::
  "image \<Rightarrow> image \<Rightarrow> (string, unit) rembg_output \<Rightarrow> (string, unit) env" where
  "fixed_env fg bg out =
     \<lparr>b64decode = (\<lambda>s. Some s),
      image_open = (\<lambda>b. if b = ''fg'' then Some fg else if b = ''bg'' then Some bg else None),
      save_png = (\<lambda>im. ''png''),
      rembg_remove = (\<lambda>b session m. Inr out),
      fromarray = (\<lambda>a. None),
      bg_luma_pixel = Px_int 128,
      fg_luma_pixel = Px_int 128\<rparr>"

definition rgb_image :: "int \<Rightarrow> int \<Rightarrow> image" where
  "rgb_image w h = \<lparr>mode = Mode_RGB, width = w, height = h\<rparr>"

definition rgba_image :: "int \<Rightarrow> int \<Rightarrow> image" where
  "rgba_image w h = \<lparr>mode = Mode_RGBA, width = w, height = h\<rparr>"

section \<open>Properties of the retrying client\<close>

declare retry_loop.simps [simp del]

lemma sleeps_of_append: "sleeps_of (xs @ ys) = sleeps_of xs @ sleeps_of ys"
  by (induction xs rule: sleeps_of.induct) simp_all

lemma sleeps_of_failure_prints: "sleeps_of (failure_prints res) = []"
  by (cases res) (simp_all add: failure_prints_def)

lemma try_block_http_failure:
  "http_failure res \<Longrightarrow> try_block res = (failure_prints res, Inl (http_error_of res))"
  by (cases res)
     (simp_all add: http_failure_def try_block_def failure_prints_def http_error_of_def
        ok_def raise_for_status_def)

lemma try_block_transport:
  "try_block (Transport_failure m) = ([], Inl (TransportError m))"
  by (simp add: try_block_def)

lemma try_block_no_error_status:
  "\<not> (400 \<le> status_code r \<and> status_code r < 600) \<Longrightarrow>
   try_block (Responded r) =
     ([], case body_json r of None \<Rightarrow> Inl JSONDecodeError | Some j \<Rightarrow> Inr j)"
  by (simp add: try_block_def ok_def raise_for_status_def split: option.splits)

lemma http_error_of_cases:
  "http_failure res \<Longrightarrow> \<exists>c b. http_error_of res = HTTPError c b"
  by (cases res) (simp_all add: http_failure_def http_error_of_def)

lemma retry_loop_exit:
  "\<not> attempt < max_retries + 1 \<Longrightarrow>
   retry_loop post max_sleep req max_retries b attempt last_exc s =
     (s, Inl (SystemExit_unexpected_retry_loop_exit last_exc))"
  by (simp add: retry_loop.simps)

lemma retry_loop_retry:
  assumes "attempt < max_retries" and "http_failure (post req (posts s))"
    and "attempt < 1024" and "0 \<le> b * 2 ^ nat attempt" and "b * 2 ^ nat attempt \<le> max_sleep"
  shows "retry_loop post max_sleep req max_retries b attempt last_exc s =
     retry_loop post max_sleep req max_retries b (attempt + 1)
       (Some (http_error_of (post req (posts s))))
       (s\<lparr>posts := Suc (posts s),
          events := events s @ POST # failure_prints (post req (posts s)) @
                    [Sleep (b * 2 ^ nat attempt)]\<rparr>)"
proof -
  obtain c body where e: "http_error_of (post req (posts s)) = HTTPError c body"
    using http_error_of_cases [OF assms(2)] by blast
  show ?thesis
    using assms(1,3,4,5)
    by (subst retry_loop.simps)
       (simp add: try_block_http_failure [OF assms(2)] e sleep_for_of_def time_sleep_def)
qed

lemma retry_loop_negative_sleep:
  assumes "attempt < max_retries" and "http_failure (post req (posts s))"
    and "attempt < 1024" and "b * 2 ^ nat attempt < 0"
  shows "retry_loop post max_sleep req max_retries b attempt last_exc s =
     (s\<lparr>posts := Suc (posts s),
        events := events s @ POST # failure_prints (post req (posts s))\<rparr>,
      Inl (Raised Sleep_ValueError))"
proof -
  obtain c body where e: "http_error_of (post req (posts s)) = HTTPError c body"
    using http_error_of_cases [OF assms(2)] by blast
  show ?thesis
    using assms(1,3,4)
    by (subst retry_loop.simps)
       (simp add: try_block_http_failure [OF assms(2)] e sleep_for_of_def time_sleep_def)
qed

lemma retry_loop_int_too_large:
  assumes "attempt < max_retries" and "http_failure (post req (posts s))"
    and "1024 \<le> attempt"
  shows "retry_loop post max_sleep req max_retries b attempt last_exc s =
     (s\<lparr>posts := Suc (posts s),
        events := events s @ POST # failure_prints (post req (posts s))\<rparr>,
      Inl (Raised Float_OverflowError))"
proof -
  obtain c body where e: "http_error_of (post req (posts s)) = HTTPError c body"
    using http_error_of_cases [OF assms(2)] by blast
  show ?thesis
    using assms(1,3)
    by (subst retry_loop.simps)
       (simp add: try_block_http_failure [OF assms(2)] e sleep_for_of_def)
qed

lemma retry_loop_last:
  assumes "attempt = max_retries" and "http_failure (post req (posts s))"
  shows "retry_loop post max_sleep req max_retries b attempt last_exc s =
     (s\<lparr>posts := Suc (posts s),
        events := events s @ POST # failure_prints (post req (posts s))\<rparr>,
      Inl (Raised (http_error_of (post req (posts s)))))"
proof -
  obtain c body where e: "http_error_of (post req (posts s)) = HTTPError c body"
    using http_error_of_cases [OF assms(2)] by blast
  show ?thesis
    using assms(1)
    by (subst retry_loop.simps) (simp add: try_block_http_failure [OF assms(2)] e)
qed

lemma retry_loop_transport:
  assumes "attempt \<le> max_retries" and "post req (posts s) = Transport_failure m"
  shows "retry_loop post max_sleep req max_retries b attempt last_exc s =
     (s\<lparr>posts := Suc (posts s), events := events s @ [POST]\<rparr>,
      Inl (Raised (TransportError m)))"
  using assms by (subst retry_loop.simps) (simp add: try_block_transport)

lemma retry_loop_no_error_status:
  assumes "attempt \<le> max_retries" and "post req (posts s) = Responded r"
    and "\<not> (400 \<le> status_code r \<and> status_code r < 600)"
  shows "retry_loop post max_sleep req max_retries b attempt last_exc s =
     (s\<lparr>posts := Suc (posts s), events := events s @ [POST]\<rparr>,
      case body_json r of None \<Rightarrow> Inl (Raised JSONDecodeError) | Some j \<Rightarrow> Inr j)"
  using assms
  by (subst retry_loop.simps) (simp add: try_block_no_error_status split: option.splits)

text \<open>
  Whatever the loop does, it only adds to the events and to the count of POSTs, and an
  iteration it enters starts with a POST.
\<close>

lemma retry_loop_extends:
  "(\<exists>rest. events (fst (retry_loop post max_sleep req max_retries b attempt last_exc s)) =
            events s @ rest \<and>
          (attempt \<le> max_retries \<longrightarrow> (\<exists>more. rest = POST # more))) \<and>
   posts s \<le> posts (fst (retry_loop post max_sleep req max_retries b attempt last_exc s)) \<and>
   (attempt \<le> max_retries \<longrightarrow>
      posts s < posts (fst (retry_loop post max_sleep req max_retries b attempt last_exc s)))"
proof (induction post max_sleep req max_retries b attempt last_exc s rule: retry_loop.induct)
  case (1 post max_sleep req max_retries b attempt last_exc s)
  show ?case
  proof (cases "attempt < max_retries + 1")
    case False
    then show ?thesis by (simp add: retry_loop_exit)
  next
    case True
    obtain out r where tb: "try_block (post req (posts s)) = (out, r)"
      by (cases "try_block (post req (posts s))")
    let ?s1 = "s\<lparr>posts := Suc (posts s), events := events s @ POST # out\<rparr>"
    have stop: ?thesis
      if "retry_loop post max_sleep req max_retries b attempt last_exc s = (?s1, res)" for res
      unfolding that by simp
    show ?thesis
    proof (cases r)
      case (Inr j)
      have "retry_loop post max_sleep req max_retries b attempt last_exc s = (?s1, Inr j)"
        using True tb Inr by (subst retry_loop.simps) simp
      then show ?thesis by (rule stop)
    next
      case (Inl e)
      show ?thesis
      proof (cases "\<exists>c body. e = HTTPError c body")
        case False
        have "retry_loop post max_sleep req max_retries b attempt last_exc s =
                (?s1, Inl (Raised e))"
          using True tb Inl False by (subst retry_loop.simps) (cases e; simp)
        then show ?thesis by (rule stop)
      next
        case h: True
        then obtain c body where e: "e = HTTPError c body" by blast
        show ?thesis
        proof (cases "attempt \<ge> max_retries")
          case True
          have "retry_loop post max_sleep req max_retries b attempt last_exc s =
                  (?s1, Inl (Raised (HTTPError c body)))"
            using \<open>attempt < max_retries + 1\<close> True tb Inl e by (subst retry_loop.simps) simp
          then show ?thesis by (rule stop)
        next
          case nl: False
          show ?thesis
          proof (cases "sleep_for_of b attempt")
            case sl: (Inl x)
            have "retry_loop post max_sleep req max_retries b attempt last_exc s =
                    (?s1, Inl (Raised x))"
              using True tb Inl e nl sl by (subst retry_loop.simps) simp
            then show ?thesis by (rule stop)
          next
            case sr: (Inr sleep_for)
            show ?thesis
            proof (cases "time_sleep max_sleep sleep_for")
              case tl: (Inl x)
              have "retry_loop post max_sleep req max_retries b attempt last_exc s =
                      (?s1, Inl (Raised x))"
                using True tb Inl e nl sr tl by (subst retry_loop.simps) simp
              then show ?thesis by (rule stop)
            next
              case tr: (Inr u)
              let ?s2 = "?s1\<lparr>events := events ?s1 @ [Sleep sleep_for]\<rparr>"
              let ?R = "retry_loop post max_sleep req max_retries b (attempt + 1)
                           (Some (HTTPError c body)) ?s2"
              have ih: "(\<exists>rest. events (fst ?R) = events ?s2 @ rest) \<and> posts ?s2 \<le> posts (fst ?R)"
                using "1.IH" [OF True tb [symmetric] refl Inl e nl sr tr] by blast
              have unf: "retry_loop post max_sleep req max_retries b attempt last_exc s = ?R"
                using True tb Inl e nl sr tr by (subst retry_loop.simps) simp
              show ?thesis unfolding unf using ih by auto
            qed
          qed
        qed
      qed
    qed
  qed
qed

text \<open>
  An endpoint that answers every attempt with an HTTP error status is called
  \<open>max_retries + 1\<close> times, with the sleeps \<open>b * 2 ^ 0, ..., b * 2 ^ (max_retries - 1)\<close>,
  and the last error is raised, as long as every sleep is one \<open>time.sleep\<close> accepts.
\<close>

lemma retry_loop_all_fail:
  fixes post :: "'p request \<Rightarrow> nat \<Rightarrow> 'j post_result"
  assumes "\<forall>k. posts s \<le> k \<and> k \<le> posts s + n \<longrightarrow> http_failure (post req k)"
    and "attempt + int n = max_retries" and "0 \<le> attempt" and "max_retries \<le> 1024"
    and "0 \<le> b"
    and "\<forall>i. nat attempt \<le> i \<and> i < nat attempt + n \<longrightarrow> b * 2 ^ i \<le> max_sleep"
  shows "posts (fst (retry_loop post max_sleep req max_retries b attempt last_exc s)) =
           posts s + n + 1 \<and>
         sleeps_of (events (fst (retry_loop post max_sleep req max_retries b attempt last_exc s))) =
           sleeps_of (events s) @ map (\<lambda>i. b * 2 ^ i) [nat attempt ..< nat attempt + n] \<and>
         snd (retry_loop post max_sleep req max_retries b attempt last_exc s) =
           Inl (Raised (http_error_of (post req (posts s + n))))"
  using assms
proof (induction n arbitrary: attempt last_exc s)
  case 0
  then have "http_failure (post req (posts s))" by simp
  then show ?case
    using 0 by (simp add: retry_loop_last sleeps_of_append sleeps_of_failure_prints)
next
  case (Suc n)
  have f: "http_failure (post req (posts s))" using Suc.prems(1) by simp
  have lt: "attempt < max_retries" "attempt < 1024" using Suc.prems(2,4) by simp_all
  have nn: "0 \<le> b * 2 ^ nat attempt" using Suc.prems(5) by simp
  have le: "b * 2 ^ nat attempt \<le> max_sleep" using Suc.prems(6) by simp
  let ?s = "s\<lparr>posts := Suc (posts s),
              events := events s @ POST # failure_prints (post req (posts s)) @
                        [Sleep (b * 2 ^ nat attempt)]\<rparr>"
  let ?R = "retry_loop post max_sleep req max_retries b (attempt + 1)
              (Some (http_error_of (post req (posts s)))) ?s"
  have step: "retry_loop post max_sleep req max_retries b attempt last_exc s = ?R"
    using lt(1) f lt(2) nn le by (rule retry_loop_retry)
  have n1: "nat (attempt + 1) = Suc (nat attempt)" using Suc.prems(3) by simp
  have ih: "posts (fst ?R) = posts ?s + n + 1 \<and>
         sleeps_of (events (fst ?R)) =
           sleeps_of (events ?s) @ map (\<lambda>i. b * 2 ^ i) [nat (attempt + 1) ..< nat (attempt + 1) + n] \<and>
         snd ?R = Inl (Raised (http_error_of (post req (posts ?s + n))))"
  proof (rule Suc.IH)
    show "\<forall>k. posts ?s \<le> k \<and> k \<le> posts ?s + n \<longrightarrow> http_failure (post req k)"
      using Suc.prems(1) by simp
    show "attempt + 1 + int n = max_retries" using Suc.prems(2) by simp
    show "0 \<le> attempt + 1" using Suc.prems(3) by simp
    show "max_retries \<le> 1024" by (rule Suc.prems(4))
    show "0 \<le> b" by (rule Suc.prems(5))
    show "\<forall>i. nat (attempt + 1) \<le> i \<and> i < nat (attempt + 1) + n \<longrightarrow> b * 2 ^ i \<le> max_sleep"
      using Suc.prems(6) n1 by simp
  qed
  have up: "[nat attempt ..< nat attempt + Suc n] =
      nat attempt # [Suc (nat attempt) ..< Suc (nat attempt) + n]"
    by (simp add: upt_conv_Cons del: upt_Suc)
  have 1: "posts (fst (retry_loop post max_sleep req max_retries b attempt last_exc s)) =
      posts s + Suc n + 1"
    unfolding step using ih by simp
  have 2: "sleeps_of (events (fst (retry_loop post max_sleep req max_retries b attempt last_exc s))) =
      sleeps_of (events s) @ map (\<lambda>i. b * 2 ^ i) [nat attempt ..< nat attempt + Suc n]"
    unfolding step up using ih
    by (simp add: n1 sleeps_of_append sleeps_of_failure_prints del: upt_Suc)
  have 3: "snd (retry_loop post max_sleep req max_retries b attempt last_exc s) =
      Inl (Raised (http_error_of (post req (posts s + Suc n))))"
    unfolding step using ih by simp
  show ?case using 1 2 3 by blast
qed

lemma total_attempts:
  fixes post :: "'p request \<Rightarrow> nat \<Rightarrow> 'j post_result"
  assumes "0 \<le> max_retries" and "max_retries \<le> 1024" and "0 \<le> b"
    and "\<forall>i<nat max_retries. b * 2 ^ i \<le> max_sleep"
    and "\<forall>k\<le>nat max_retries.
           http_failure (post (build_request project location model token payload) k)"
  shows "posts (fst (call_virtual_try_on post max_sleep project location model token payload
                       max_retries b)) = nat max_retries + 1 \<and>
         sleeps_of (events (fst (call_virtual_try_on post max_sleep project location model token
                                   payload max_retries b))) =
           map (\<lambda>i. b * 2 ^ i) [0 ..< nat max_retries] \<and>
         snd (call_virtual_try_on post max_sleep project location model token payload
                max_retries b) =
           Inl (Raised (http_error_of
                  (post (build_request project location model token payload) (nat max_retries))))"
  using retry_loop_all_fail
          [of initial_state "nat max_retries" post
              "build_request project location model token payload" 0 max_retries b max_sleep None]
        assms
  by (simp add: call_virtual_try_on_def initial_state_def)

text \<open>
  C1, as the claim states it, fails twice over. An endpoint that fails every attempt by
  refusing the connection is called once, not four times, and nothing is slept: the
  transport error is not an \<open>HTTPError\<close> and leaves the function. And for a negative
  \<open>backoff_seconds\<close> an endpoint that always answers 503 is called once too:
  \<open>time.sleep\<close> refuses the negative duration and its \<open>ValueError\<close> leaves the function.
\<close>

theorem permanent_failure_not_always_four_posts:
  "call_virtual_try_on connection_refused 1000000 ''p'' ''us-central1'' ''m'' ''t'' () 3 1 =
     (\<lparr>posts = 1, events = [POST]\<rparr>,
      Inl (Raised (TransportError ''connection refused''))) \<and>
   call_virtual_try_on always_503 1000000 ''p'' ''us-central1'' ''m'' ''t'' () 3 (-1) =
     (\<lparr>posts = 1,
       events = [POST, Print_status 503, Print_response_body ''unavailable'']\<rparr>,
      Inl (Raised Sleep_ValueError))"
proof -
  have 1: "call_virtual_try_on connection_refused 1000000 ''p'' ''us-central1'' ''m'' ''t'' () 3 1 =
     (\<lparr>posts = 1, events = [POST]\<rparr>,
      Inl (Raised (TransportError ''connection refused'')))"
    unfolding call_virtual_try_on_def initial_state_def
    by (subst retry_loop_transport [where m = "''connection refused''"])
       (simp_all add: connection_refused_def)
  have 2: "call_virtual_try_on always_503 1000000 ''p'' ''us-central1'' ''m'' ''t'' () 3 (-1) =
     (\<lparr>posts = 1,
       events = [POST, Print_status 503, Print_response_body ''unavailable'']\<rparr>,
      Inl (Raised Sleep_ValueError))"
    unfolding call_virtual_try_on_def initial_state_def
    by (subst retry_loop_negative_sleep)
       (simp_all add: always_503_def http_failure_def failure_prints_def)
  show ?thesis using 1 2 by simp
qed

text \<open>
  C1, amended. For \<open>max_retries = 3\<close> and every \<open>backoff_seconds = b\<close> that is not
  negative and whose longest sleep \<open>b * 4\<close> is within what \<open>time.sleep\<close> accepts: if the
  endpoint answers every attempt with an HTTP error status (4xx or 5xx), then
  \<open>call_virtual_try_on\<close> issues exactly four POSTs, sleeps exactly three times, for
  \<open>b * 1\<close>, \<open>b * 2\<close> and \<open>b * 4\<close> seconds in that order, each sleep between two consecutive
  POSTs, and then raises the error of the fourth attempt: the \<open>HTTPError\<close> carrying its
  status code and body.
\<close>

theorem permanent_failure_three_retries:
  fixes post :: "'p request \<Rightarrow> nat \<Rightarrow> 'j post_result"
  assumes "\<forall>k<4. http_failure (post (build_request project location model token payload) k)"
    and "0 \<le> b" and "b * 4 \<le> max_sleep"
  shows "call_virtual_try_on post max_sleep project location model token payload 3 b =
     (\<lparr>posts = 4,
       events =
         POST # failure_prints (post (build_request project location model token payload) 0) @
         Sleep (b * 1) #
         POST # failure_prints (post (build_request project location model token payload) 1) @
         Sleep (b * 2) #
         POST # failure_prints (post (build_request project location model token payload) 2) @
         Sleep (b * 4) #
         POST # failure_prints (post (build_request project location model token payload) 3)\<rparr>,
      Inl (Raised (http_error_of (post (build_request project location model token payload) 3)))) \<and>
     sleeps_of (events (fst (call_virtual_try_on post max_sleep project location model token
                               payload 3 b))) = [b * 1, b * 2, b * 4]"
proof -
  let ?req = "build_request project location model token payload"
  have f: "http_failure (post ?req 0)" "http_failure (post ?req (Suc 0))"
    "http_failure (post ?req (Suc (Suc 0)))" "http_failure (post ?req (Suc (Suc (Suc 0))))"
    using assms(1) by simp_all
  have le: "b \<le> max_sleep" "b * 2 \<le> max_sleep" using assms(2,3) by simp_all
  have run: "call_virtual_try_on post max_sleep project location model token payload 3 b =
     (\<lparr>posts = 4,
       events =
         POST # failure_prints (post ?req 0) @ Sleep (b * 1) #
         POST # failure_prints (post ?req 1) @ Sleep (b * 2) #
         POST # failure_prints (post ?req 2) @ Sleep (b * 4) #
         POST # failure_prints (post ?req 3)\<rparr>,
      Inl (Raised (http_error_of (post ?req 3))))"
    unfolding call_virtual_try_on_def initial_state_def
    apply (subst retry_loop_retry)
         apply simp apply (simp add: f) apply simp
      apply (simp add: assms(2)) apply (simp add: le)
    apply (subst retry_loop_retry)
         apply simp apply (simp add: f) apply simp
      apply (simp add: assms(2)) apply (simp add: le)
    apply (subst retry_loop_retry)
         apply simp apply (simp add: f) apply simp
      apply (simp add: assms(2)) apply (simp add: assms(3) numeral_2_eq_2)
    apply (subst retry_loop_last) apply simp apply (simp add: f)
    apply (simp add: numeral_2_eq_2 numeral_3_eq_3)
    done
  show ?thesis
    unfolding run by (simp add: sleeps_of_append sleeps_of_failure_prints)
qed

theorem permanent_failure_three_retries_witness:
  "http_failure (always_503 (build_request ''p'' ''us-central1'' ''m'' ''t'' ()) 0) \<and>
   http_failure (always_503 (build_request ''p'' ''us-central1'' ''m'' ''t'' ()) 1) \<and>
   http_failure (always_503 (build_request ''p'' ''us-central1'' ''m'' ''t'' ()) 2) \<and>
   http_failure (always_503 (build_request ''p'' ''us-central1'' ''m'' ''t'' ()) 3) \<and>
   (0::real) \<le> 2 \<and> (2::real) * 4 \<le> 1000000 \<and>
   call_virtual_try_on always_503 1000000 ''p'' ''us-central1'' ''m'' ''t'' () 3 2 =
     (\<lparr>posts = 4,
       events = [POST, Print_status 503, Print_response_body ''unavailable'', Sleep 2,
                 POST, Print_status 503, Print_response_body ''unavailable'', Sleep 4,
                 POST, Print_status 503, Print_response_body ''unavailable'', Sleep 8,
                 POST, Print_status 503, Print_response_body ''unavailable'']\<rparr>,
      Inl (Raised (HTTPError 503 ''unavailable''))) \<and>
   sleeps_of (events (fst (call_virtual_try_on always_503 1000000 ''p'' ''us-central1'' ''m'' ''t''
                             () 3 2))) = [2, 4, 8]"
proof -
  have h: "\<forall>k<4. http_failure (always_503 (build_request ''p'' ''us-central1'' ''m'' ''t'' ()) k)"
    by (simp add: http_failure_def always_503_def)
  have b: "(0::real) \<le> 2" "(2::real) * 4 \<le> 1000000" by simp_all
  have "call_virtual_try_on always_503 1000000 ''p'' ''us-central1'' ''m'' ''t'' () 3 2 =
     (\<lparr>posts = 4,
       events = [POST, Print_status 503, Print_response_body ''unavailable'', Sleep 2,
                 POST, Print_status 503, Print_response_body ''unavailable'', Sleep 4,
                 POST, Print_status 503, Print_response_body ''unavailable'', Sleep 8,
                 POST, Print_status 503, Print_response_body ''unavailable'']\<rparr>,
      Inl (Raised (HTTPError 503 ''unavailable''))) \<and>
   sleeps_of (events (fst (call_virtual_try_on always_503 1000000 ''p'' ''us-central1'' ''m'' ''t''
                             () 3 2))) = [2, 4, 8]"
    using h b permanent_failure_three_retries
              [of always_503 "''p''" "''us-central1''" "''m''" "''t''" "()" 2 1000000]
    by (simp add: always_503_def failure_prints_def http_error_of_def)
  then show ?thesis
    by (simp add: http_failure_def always_503_def)
qed

text \<open>
  C2, as the claim states it, fails. With three retries allowed: a transport failure on the
  first attempt ends the call after one POST and no sleep, and the transport error itself
  leaves the function; an answer with the non-2xx status 304 is not retried either, its
  body is returned after one POST; with a negative \<open>initial_backoff\<close> a 503 answer is
  followed by the \<open>ValueError\<close> of \<open>time.sleep\<close> and no second POST; and at the attempt of
  index 1024 (reached with a zero backoff) a 503 answer is followed by the
  \<open>OverflowError\<close> of the float product and no further POST.
\<close>

theorem transport_failure_not_retried:
  "call_virtual_try_on connection_refused 1000000 ''p'' ''us-central1'' ''m'' ''t'' () 3 2 =
     (\<lparr>posts = 1, events = [POST]\<rparr>,
      Inl (Raised (TransportError ''connection refused''))) \<and>
   call_virtual_try_on always_304 1000000 ''p'' ''us-central1'' ''m'' ''t'' () 3 2 =
     (\<lparr>posts = 1, events = [POST]\<rparr>, Inr ''cached'') \<and>
   call_virtual_try_on always_503 1000000 ''p'' ''us-central1'' ''m'' ''t'' () 3 (-2) =
     (\<lparr>posts = 1,
       events = [POST, Print_status 503, Print_response_body ''unavailable'']\<rparr>,
      Inl (Raised Sleep_ValueError)) \<and>
   retry_loop always_503 1000000 (build_request ''p'' ''us-central1'' ''m'' ''t'' ()) 2000 0 1024
       (Some (HTTPError 503 ''unavailable'')) \<lparr>posts = 1024, events = []\<rparr> =
     (\<lparr>posts = 1025,
       events = [POST, Print_status 503, Print_response_body ''unavailable'']\<rparr>,
      Inl (Raised Float_OverflowError))"
proof -
  have 1: "call_virtual_try_on connection_refused 1000000 ''p'' ''us-central1'' ''m'' ''t'' () 3 2 =
     (\<lparr>posts = 1, events = [POST]\<rparr>,
      Inl (Raised (TransportError ''connection refused'')))"
    unfolding call_virtual_try_on_def initial_state_def
    by (subst retry_loop_transport [where m = "''connection refused''"])
       (simp_all add: connection_refused_def)
  have 2: "call_virtual_try_on always_304 1000000 ''p'' ''us-central1'' ''m'' ''t'' () 3 2 =
     (\<lparr>posts = 1, events = [POST]\<rparr>, Inr ''cached'')"
    unfolding call_virtual_try_on_def initial_state_def
    by (subst retry_loop_no_error_status
          [where r = "\<lparr>status_code = 304, body_text = ''{}'', body_json = Some ''cached''\<rparr>"])
       (simp_all add: always_304_def)
  have 3: "call_virtual_try_on always_503 1000000 ''p'' ''us-central1'' ''m'' ''t'' () 3 (-2) =
     (\<lparr>posts = 1,
       events = [POST, Print_status 503, Print_response_body ''unavailable'']\<rparr>,
      Inl (Raised Sleep_ValueError))"
    unfolding call_virtual_try_on_def initial_state_def
    by (subst retry_loop_negative_sleep)
       (simp_all add: always_503_def http_failure_def failure_prints_def)
  have 4: "retry_loop always_503 1000000 (build_request ''p'' ''us-central1'' ''m'' ''t'' ()) 2000 0
       1024 (Some (HTTPError 503 ''unavailable'')) \<lparr>posts = 1024, events = []\<rparr> =
     (\<lparr>posts = 1025,
       events = [POST, Print_status 503, Print_response_body ''unavailable'']\<rparr>,
      Inl (Raised Float_OverflowError))"
    by (subst retry_loop_int_too_large)
       (simp_all add: always_503_def http_failure_def failure_prints_def)
  show ?thesis using 1 2 3 4 by simp
qed

text \<open>
  C2, amended. At every attempt whose index is below \<open>max_retries\<close> and below 1024, with
  an \<open>initial_backoff\<close> that is not negative and a sleep \<open>initial_backoff * 2 ^ attempt\<close>
  within what \<open>time.sleep\<close> accepts: when the endpoint answers with an HTTP error status
  (4xx or 5xx), the loop sleeps for \<open>initial_backoff * 2 ^ attempt\<close> seconds and then
  issues the next POST, so at least two POSTs are issued from that attempt on; when the
  POST fails in the transport, the loop ends there, without a sleep and without another
  POST, and the transport error leaves the function.
\<close>

theorem retry_on_http_error_only:
  fixes post :: "'p request \<Rightarrow> nat \<Rightarrow> 'j post_result"
  assumes "0 \<le> attempt" and "attempt < max_retries" and "attempt < 1024"
    and "0 \<le> initial_backoff" and "initial_backoff * 2 ^ nat attempt \<le> max_sleep"
  shows "(http_failure (post req (posts s)) \<longrightarrow>
            retry_loop post max_sleep req max_retries initial_backoff attempt last_exc s =
              retry_loop post max_sleep req max_retries initial_backoff (attempt + 1)
                (Some (http_error_of (post req (posts s))))
                (s\<lparr>posts := Suc (posts s),
                   events := events s @ POST # failure_prints (post req (posts s)) @
                             [Sleep (initial_backoff * 2 ^ nat attempt)]\<rparr>) \<and>
            (\<exists>rest. events (fst (retry_loop post max_sleep req max_retries initial_backoff
                                   attempt last_exc s)) =
                      events s @ POST # failure_prints (post req (posts s)) @
                      Sleep (initial_backoff * 2 ^ nat attempt) # POST # rest) \<and>
            posts s + 2 \<le> posts (fst (retry_loop post max_sleep req max_retries initial_backoff
                                         attempt last_exc s))) \<and>
         (\<forall>m. post req (posts s) = Transport_failure m \<longrightarrow>
            retry_loop post max_sleep req max_retries initial_backoff attempt last_exc s =
              (s\<lparr>posts := Suc (posts s), events := events s @ [POST]\<rparr>,
               Inl (Raised (TransportError m))))"
proof (intro conjI impI allI)
  assume f: "http_failure (post req (posts s))"
  let ?s2 = "s\<lparr>posts := Suc (posts s),
               events := events s @ POST # failure_prints (post req (posts s)) @
                         [Sleep (initial_backoff * 2 ^ nat attempt)]\<rparr>"
  let ?R = "retry_loop post max_sleep req max_retries initial_backoff (attempt + 1)
              (Some (http_error_of (post req (posts s)))) ?s2"
  have nn: "0 \<le> initial_backoff * 2 ^ nat attempt" using assms(4) by simp
  show step: "retry_loop post max_sleep req max_retries initial_backoff attempt last_exc s = ?R"
    using assms(2) f assms(3) nn assms(5) by (rule retry_loop_retry)
  have next_le: "attempt + 1 \<le> max_retries" using assms(2) by simp
  obtain more where ev: "events (fst ?R) = events ?s2 @ POST # more"
    and ps: "posts ?s2 < posts (fst ?R)"
    using retry_loop_extends
            [of post max_sleep req max_retries initial_backoff "attempt + 1"
                "Some (http_error_of (post req (posts s)))" ?s2] next_le
    by auto
  show "\<exists>rest. events (fst (retry_loop post max_sleep req max_retries initial_backoff
                              attempt last_exc s)) =
                 events s @ POST # failure_prints (post req (posts s)) @
                 Sleep (initial_backoff * 2 ^ nat attempt) # POST # rest"
    unfolding step using ev by simp
  show "posts s + 2 \<le> posts (fst (retry_loop post max_sleep req max_retries initial_backoff
                                      attempt last_exc s))"
    unfolding step using ps by simp
next
  fix m
  assume "post req (posts s) = Transport_failure m"
  then show "retry_loop post max_sleep req max_retries initial_backoff attempt last_exc s =
      (s\<lparr>posts := Suc (posts s), events := events s @ [POST]\<rparr>,
       Inl (Raised (TransportError m)))"
    using assms(2) by (intro retry_loop_transport) simp_all
qed

theorem retry_on_http_error_only_witness:
  "(0::int) \<le> 1 \<and> (1::int) < 3 \<and> (1::int) < 1024 \<and> (0::real) \<le> 2 \<and>
   (2::real) * 2 ^ nat 1 \<le> 1000000 \<and>
   http_failure (always_503 (build_request ''p'' ''l'' ''m'' ''t'' ()) 1) \<and>
   retry_loop always_503 1000000 (build_request ''p'' ''l'' ''m'' ''t'' ()) 3 2 1 None
       \<lparr>posts = 1, events = [POST, Sleep 2]\<rparr> =
     (\<lparr>posts = 4,
       events = [POST, Sleep 2,
                 POST, Print_status 503, Print_response_body ''unavailable'', Sleep 4,
                 POST, Print_status 503, Print_response_body ''unavailable'', Sleep 8,
                 POST, Print_status 503, Print_response_body ''unavailable'']\<rparr>,
      Inl (Raised (HTTPError 503 ''unavailable''))) \<and>
   connection_refused (build_request ''p'' ''l'' ''m'' ''t'' ()) 1 =
     Transport_failure ''connection refused'' \<and>
   retry_loop connection_refused 1000000 (build_request ''p'' ''l'' ''m'' ''t'' ()) 3 2 1 None
       \<lparr>posts = 1, events = [POST, Sleep 2]\<rparr> =
     (\<lparr>posts = 2, events = [POST, Sleep 2, POST]\<rparr>,
      Inl (Raised (TransportError ''connection refused'')))"
proof -
  let ?req = "build_request ''p'' ''l'' ''m'' ''t'' ()"
  let ?s = "\<lparr>posts = 1, events = [POST, Sleep 2]\<rparr>"
  have h: "(0::int) \<le> 1" "(1::int) < 3" "(1::int) < 1024" "(0::real) \<le> 2"
    "(2::real) * 2 ^ nat 1 \<le> 1000000"
    by simp_all
  have f: "http_failure (always_503 ?req k)" for k
    by (simp add: http_failure_def always_503_def)
  note a = retry_on_http_error_only [OF h, of always_503 ?req ?s None]
  note c = retry_on_http_error_only [OF h, of connection_refused ?req ?s None]
  have step: "retry_loop always_503 1000000 ?req 3 2 1 None ?s =
      retry_loop always_503 1000000 ?req 3 2 (1 + 1) (Some (http_error_of (always_503 ?req (posts ?s))))
        (?s\<lparr>posts := Suc (posts ?s),
            events := events ?s @ POST # failure_prints (always_503 ?req (posts ?s)) @
                      [Sleep (2 * 2 ^ nat 1)]\<rparr>)"
    using a f by blast
  have rest: "retry_loop always_503 1000000 ?req 3 2 (1 + 1)
        (Some (http_error_of (always_503 ?req (posts ?s))))
        (?s\<lparr>posts := Suc (posts ?s),
            events := events ?s @ POST # failure_prints (always_503 ?req (posts ?s)) @
                      [Sleep (2 * 2 ^ nat 1)]\<rparr>) =
     (\<lparr>posts = 4,
       events = [POST, Sleep 2,
                 POST, Print_status 503, Print_response_body ''unavailable'', Sleep 4,
                 POST, Print_status 503, Print_response_body ''unavailable'', Sleep 8,
                 POST, Print_status 503, Print_response_body ''unavailable'']\<rparr>,
      Inl (Raised (HTTPError 503 ''unavailable'')))"
    apply (subst retry_loop_retry)
         apply simp apply (rule f) apply simp apply simp apply simp
    apply (subst retry_loop_last) apply simp apply (rule f)
    apply (simp add: always_503_def failure_prints_def http_error_of_def numeral_2_eq_2)
    done
  have t: "retry_loop connection_refused 1000000 ?req 3 2 1 None ?s =
     (\<lparr>posts = 2, events = [POST, Sleep 2, POST]\<rparr>,
      Inl (Raised (TransportError ''connection refused'')))"
    using c by (simp add: connection_refused_def)
  show ?thesis
    using step rest t f [of 1] by (simp add: connection_refused_def)
qed

text \<open>
  C7, as the claim states it, fails. With a negative \<open>initial_backoff\<close> the first 503
  answer is followed by the \<open>ValueError\<close> of \<open>time.sleep\<close>: the second attempt, which
  would have succeeded, is never made. And a successful second answer with no JSON body
  (a 204) is not returned: \<open>response.json()\<close> raises after the one sleep.
\<close>

theorem second_attempt_not_always_returned:
  "call_virtual_try_on fails_once 1000000 ''p'' ''l'' ''m'' ''t'' () 3 (-1) =
     (\<lparr>posts = 1,
       events = [POST, Print_status 503, Print_response_body ''unavailable'']\<rparr>,
      Inl (Raised Sleep_ValueError)) \<and>
   call_virtual_try_on fails_once_then_204 1000000 ''p'' ''l'' ''m'' ''t'' () 3 2 =
     (\<lparr>posts = 2,
       events = [POST, Print_status 503, Print_response_body ''unavailable'', Sleep 2, POST]\<rparr>,
      Inl (Raised JSONDecodeError))"
proof -
  have 1: "call_virtual_try_on fails_once 1000000 ''p'' ''l'' ''m'' ''t'' () 3 (-1) =
     (\<lparr>posts = 1,
       events = [POST, Print_status 503, Print_response_body ''unavailable'']\<rparr>,
      Inl (Raised Sleep_ValueError))"
    unfolding call_virtual_try_on_def initial_state_def
    by (subst retry_loop_negative_sleep)
       (simp_all add: fails_once_def http_failure_def failure_prints_def)
  have 2: "call_virtual_try_on fails_once_then_204 1000000 ''p'' ''l'' ''m'' ''t'' () 3 2 =
     (\<lparr>posts = 2,
       events = [POST, Print_status 503, Print_response_body ''unavailable'', Sleep 2, POST]\<rparr>,
      Inl (Raised JSONDecodeError))"
    unfolding call_virtual_try_on_def initial_state_def
    apply (subst retry_loop_retry)
         apply simp apply (simp add: fails_once_then_204_def http_failure_def)
       apply simp apply simp apply simp
    apply (subst retry_loop_no_error_status
             [where r = "\<lparr>status_code = 204, body_text = [], body_json = None\<rparr>"])
       apply simp apply (simp add: fails_once_then_204_def) apply simp
    apply (simp add: fails_once_then_204_def failure_prints_def)
    done
  show ?thesis using 1 2 by simp
qed

text \<open>
  C7, amended. When retries are allowed (\<open>max_retries\<close> at least 1), \<open>initial_backoff\<close> is
  not negative and within what \<open>time.sleep\<close> accepts, the first attempt is answered with
  an HTTP error status (4xx or 5xx) and the second with a 2xx response, the call issues
  exactly two POSTs with exactly one sleep between them, of
  \<open>initial_backoff * 2 ^ 0 = initial_backoff\<close> seconds, and makes no further attempt or
  sleep. It returns the parsed body of the second response as it is when that body is
  JSON, and raises the decoding error of \<open>response.json()\<close> when it is not.
\<close>

theorem second_attempt_success:
  fixes post :: "'p request \<Rightarrow> nat \<Rightarrow> 'j post_result"
  assumes "1 \<le> max_retries"
    and "0 \<le> initial_backoff" and "initial_backoff \<le> max_sleep"
    and "http_failure (post (build_request project location model token payload) 0)"
    and "post (build_request project location model token payload) 1 = Responded r"
    and "200 \<le> status_code r \<and> status_code r < 300"
  shows "call_virtual_try_on post max_sleep project location model token payload
           max_retries initial_backoff =
     (\<lparr>posts = 2,
       events = POST # failure_prints (post (build_request project location model token payload) 0) @
                [Sleep (initial_backoff * 2 ^ 0), POST]\<rparr>,
      case body_json r of None \<Rightarrow> Inl (Raised JSONDecodeError) | Some j \<Rightarrow> Inr j) \<and>
     sleeps_of (events (fst (call_virtual_try_on post max_sleep project location model token
                               payload max_retries initial_backoff))) = [initial_backoff]"
proof -
  have run: "call_virtual_try_on post max_sleep project location model token payload
           max_retries initial_backoff =
     (\<lparr>posts = 2,
       events = POST # failure_prints (post (build_request project location model token payload) 0) @
                [Sleep (initial_backoff * 2 ^ 0), POST]\<rparr>,
      case body_json r of None \<Rightarrow> Inl (Raised JSONDecodeError) | Some j \<Rightarrow> Inr j)"
    unfolding call_virtual_try_on_def initial_state_def
    apply (subst retry_loop_retry)
    using assms(1) apply simp
    using assms(4) apply simp
       apply simp
    using assms(2) apply simp
    using assms(3) apply simp
    apply (subst retry_loop_no_error_status [where r = r])
    using assms(1) apply simp
    using assms(5) apply simp
    using assms(6) apply simp
    apply simp
    done
  show ?thesis
    unfolding run by (simp add: sleeps_of_append sleeps_of_failure_prints)
qed

theorem second_attempt_success_witness:
  "(1::int) \<le> 3 \<and> (0::real) \<le> 2 \<and> (2::real) \<le> 1000000 \<and>
   http_failure (fails_once (build_request ''p'' ''l'' ''m'' ''t'' ()) 0) \<and>
   fails_once (build_request ''p'' ''l'' ''m'' ''t'' ()) 1 =
     Responded \<lparr>status_code = 200, body_text = ''{}'', body_json = Some ''predictions''\<rparr> \<and>
   call_virtual_try_on fails_once 1000000 ''p'' ''l'' ''m'' ''t'' () 3 2 =
     (\<lparr>posts = 2,
       events = [POST, Print_status 503, Print_response_body ''unavailable'', Sleep 2, POST]\<rparr>,
      Inr ''predictions'') \<and>
   sleeps_of (events (fst (call_virtual_try_on fails_once 1000000 ''p'' ''l'' ''m'' ''t'' () 3 2))) =
     [2]"
  using second_attempt_success
          [of 3 2 1000000 fails_once "''p''" "''l''" "''m''" "''t''" "()"
              "\<lparr>status_code = 200, body_text = ''{}'', body_json = Some ''predictions''\<rparr>"]
  by (simp add: http_failure_def fails_once_def failure_prints_def)

text \<open>
  C8. For every negative \<open>max_retries\<close> the loop body is never entered: no POST is
  issued, nothing is slept or printed, no response is returned, and the call ends with the
  \<open>SystemExit\<close> "Unexpected retry loop exit" whose recorded last error is \<open>None\<close>.
\<close>

theorem negative_max_retries:
  fixes post :: "'p request \<Rightarrow> nat \<Rightarrow> 'j post_result"
  assumes "max_retries < 0"
  shows "call_virtual_try_on post max_sleep project location model token payload max_retries b =
     (\<lparr>posts = 0, events = []\<rparr>, Inl (SystemExit_unexpected_retry_loop_exit None))"
  unfolding call_virtual_try_on_def initial_state_def
  using assms by (subst retry_loop_exit) simp_all

theorem negative_max_retries_witness:
  "(-1::int) < 0 \<and>
   call_virtual_try_on always_503 1000000 ''p'' ''l'' ''m'' ''t'' () (-1) 2 =
     (\<lparr>posts = 0, events = []\<rparr>, Inl (SystemExit_unexpected_retry_loop_exit None))"
  using negative_max_retries [of "-1" always_503 1000000 "''p''" "''l''" "''m''" "''t''" "()" 2]
  by simp

section \<open>Properties of the image pipeline\<close>

subsection \<open>Runs\<close>

lemma snd_and_then:
  "snd (and_then m f) = (case snd m of Inl e \<Rightarrow> Inl e | Inr x \<Rightarrow> snd (f x))"
  by (cases m) (auto simp: and_then_def split: sum.splits prod.splits)

lemma snd_step [simp]: "snd (step c r) = r"
  by (simp add: step_def)

lemma snd_ret [simp]: "snd (ret x) = Inr x"
  by (simp add: ret_def)

lemma and_then_Inr:
  "and_then (cs, Inr x) f = (case f x of (cs', r) \<Rightarrow> (cs @ cs', r))"
  by (simp add: and_then_def)

lemma and_then_Inl: "and_then (cs, Inl e) f = (cs, Inl e)"
  by (simp add: and_then_def)

lemmas run_simps = and_then_Inr and_then_Inl step_def ret_def

lemmas pipeline_defs = composite_on_background_def decode_inputs_def decode_b64_def open_rgba_def
  segment_def fit_background_def scale_subject_def ground_shadow_def match_luminance_def
  luminance_matching_def first_band_def brightness_factor_def truediv_def
  convert_def resize_def fit_def image_new_def alpha_composite_def size_of_def py_int_def Let_def

lemmas fixed_defs = fixed_env_def rgb_image_def rgba_image_def

subsection \<open>Sizes through the pipeline\<close>

lemma py_int_scale_pos:
  assumes "2 \<le> w"
  shows "1 \<le> py_int (real_of_int w * 0.78)"
proof -
  have "1 \<le> real_of_int w * 0.78" using assms by simp
  then show ?thesis by (simp add: py_int_def le_floor_iff)
qed

lemma py_int_zoom_pos:
  assumes "1 \<le> w"
  shows "1 \<le> py_int (real_of_int w * 1.35)"
proof -
  have "1 \<le> real_of_int w * 1.35" using assms by simp
  then show ?thesis by (simp add: py_int_def le_floor_iff)
qed

lemma resize_ok:
  "1 \<le> fst sz \<Longrightarrow> 1 \<le> snd sz \<Longrightarrow> 1 \<le> width im \<Longrightarrow> 1 \<le> height im \<Longrightarrow>
   \<exists>im'. resize im sz = Inr im' \<and> size_of im' = sz \<and> mode im' = mode im"
  by (auto simp: resize_def size_of_def)

lemma fit_ok:
  "1 \<le> fst sz \<Longrightarrow> 1 \<le> snd sz \<Longrightarrow> 1 \<le> height im \<Longrightarrow>
   fit im sz = Inr (im\<lparr>width := fst sz, height := snd sz\<rparr>)"
  by (auto simp: fit_def)

lemma resize_then_fit:
  assumes "1 \<le> fst z" "1 \<le> snd z" "1 \<le> width background" "1 \<le> height background"
    and "1 \<le> fst sz" "1 \<le> snd sz"
  shows "snd (and_then (step (Resize z) (resize background z))
                (\<lambda>bg_zoom. step (ImageOps_fit sz) (fit bg_zoom sz))) =
           Inr \<lparr>mode = mode background, width = fst sz, height = snd sz\<rparr>"
proof -
  obtain bz where bz: "resize background z = Inr bz" "size_of bz = z" "mode bz = mode background"
    using resize_ok [of z background] assms by auto
  have "1 \<le> height bz" using bz(2) assms by (auto simp: size_of_def)
  then have "fit bz sz = Inr (bz\<lparr>width := fst sz, height := snd sz\<rparr>)"
    using fit_ok [of sz bz] assms by simp
  moreover have "bz\<lparr>width := fst sz, height := snd sz\<rparr> =
      \<lparr>mode = mode background, width = fst sz, height = snd sz\<rparr>"
    using bz(3) by (cases bz) simp
  ultimately show ?thesis
    by (simp add: snd_and_then bz(1))
qed

lemma fit_background_ok:
  assumes "1 \<le> width background" "1 \<le> height background"
    and "1 \<le> width foreground" "1 \<le> height foreground"
  shows "snd (fit_background background foreground) =
           Inr \<lparr>mode = mode background, width = width foreground, height = height foreground\<rparr>"
proof -
  have "snd (fit_background background foreground) =
          Inr \<lparr>mode = mode background, width = fst (size_of foreground),
               height = snd (size_of foreground)\<rparr>"
    unfolding fit_background_def Let_def
    by (rule resize_then_fit) (use assms py_int_zoom_pos in \<open>auto simp: size_of_def\<close>)
  then show ?thesis by (simp add: size_of_def)
qed

lemma resize_then_cleanup:
  assumes "1 \<le> fst t" "1 \<le> snd t" "1 \<le> width foreground" "1 \<le> height foreground"
  shows "\<exists>fg. snd (and_then (step (Resize t) (resize foreground t)) (\<lambda>fg.
                 and_then (step Split (Inr ())) (\<lambda>_.
                 and_then (step Point (Inr ())) (\<lambda>_.
                 step Putalpha (Inr fg))))) = Inr fg \<and>
           mode fg = mode foreground \<and> size_of fg = t"
proof -
  obtain fg where fg: "resize foreground t = Inr fg" "size_of fg = t" "mode fg = mode foreground"
    using resize_ok [of t foreground] assms by auto
  then show ?thesis
    by (simp add: snd_and_then)
qed

lemma scale_subject_ok:
  assumes "2 \<le> width foreground" "2 \<le> height foreground"
  shows "\<exists>fg. snd (scale_subject foreground) = Inr fg \<and> mode fg = mode foreground \<and>
           1 \<le> width fg \<and> 1 \<le> height fg"
proof -
  let ?t = "(py_int (real_of_int (width foreground) * 0.78),
             py_int (real_of_int (height foreground) * 0.78))"
  have t: "1 \<le> fst ?t" "1 \<le> snd ?t"
    using assms py_int_scale_pos by auto
  have "\<exists>fg. snd (scale_subject foreground) = Inr fg \<and> mode fg = mode foreground \<and>
          size_of fg = ?t"
    unfolding scale_subject_def Let_def
    by (rule resize_then_cleanup) (use assms t in auto)
  then show ?thesis
    using t by (auto simp: size_of_def)
qed

lemma ground_shadow_ok:
  assumes "0 \<le> width fg" "0 \<le> height fg"
  shows "snd (ground_shadow fg) = Inr \<lparr>mode = Mode_RGBA, width = width fg, height = height fg\<rparr>"
  using assms by (simp add: ground_shadow_def image_new_def size_of_def Let_def snd_and_then)

lemma brightness_factor_total: "\<exists>r. brightness_factor bg fg = Inr r"
  by (simp add: brightness_factor_def truediv_def)

lemma luminance_matching_total:
  assumes "bg_px \<noteq> Px_tuple []" "fg_px \<noteq> Px_tuple []"
  shows "\<exists>r. luminance_matching bg_px fg_px = Inr r"
proof -
  have "\<exists>b. first_band bg_px = Inr b"
    using assms(1) by (cases bg_px) (auto simp: first_band_def split: list.splits)
  then obtain b where b: "first_band bg_px = Inr b" by blast
  have "\<exists>f. first_band fg_px = Inr f"
    using assms(2) by (cases fg_px) (auto simp: first_band_def split: list.splits)
  then obtain f where f: "first_band fg_px = Inr f" by blast
  show ?thesis
    using brightness_factor_total
    by (cases b; cases f) (simp_all add: luminance_matching_def b f)
qed

lemma match_luminance_ok:
  assumes "bg_luma_pixel env \<noteq> Px_tuple []" "fg_luma_pixel env \<noteq> Px_tuple []"
  shows "snd (match_luminance env fg) = Inr fg"
proof -
  obtain r where "luminance_matching (bg_luma_pixel env) (fg_luma_pixel env) = Inr r"
    using luminance_matching_total [OF assms] by blast
  then show ?thesis
    by (cases r) (simp_all add: match_luminance_def snd_and_then)
qed

lemma snd_open_rgba:
  "snd (open_rgba env b) = Inr im \<Longrightarrow> mode im = Mode_RGBA"
  by (auto simp: open_rgba_def snd_and_then convert_def split: option.splits)

lemma decode_inputs_modes:
  assumes "snd (decode_inputs env f b) = Inr (foreground, background)"
  shows "mode foreground = Mode_RGBA \<and> mode background = Mode_RGBA"
  using assms
  by (auto simp: decode_inputs_def snd_and_then split: sum.splits dest: snd_open_rgba)

lemma segment_mode:
  assumes "snd (segment env foreground) = Inr cutout"
  shows "mode cutout = Mode_RGBA"
  using assms
  by (auto simp: segment_def snd_and_then convert_def
           split: sum.splits rembg_output.splits option.splits dest: snd_open_rgba)

text \<open>
  C3. The claim promises an image of the cutout's size for every pair of decodable inputs.
  At a decodable foreground whose cutout is one pixel wide and high the code does not
  deliver it: the subject is scaled to \<open>(int(1 * 0.78), int(1 * 0.78)) = (0, 0)\<close>, the
  truncation is not guarded, \<open>resize\<close> refuses that size, and the call ends with its
  \<open>ValueError\<close> after the background has been fitted, so no image is returned.
\<close>

theorem one_pixel_cutout_raises:
  "composite_on_background
     (fixed_env (rgb_image 1 1) (rgb_image 4 4) (Out_image (rgba_image 1 1))) ''fg'' ''bg'' =
   ([B64decode, B64decode, Image_open, Convert Mode_RGBA, Image_open, Convert Mode_RGBA,
     Save_PNG, Rembg_new_session ''u2net'', Rembg_remove, Convert Mode_RGBA,
     Resize (5, 5), ImageOps_fit (1, 1), Resize (0, 0)],
    Inl (ValueError ''height and width must be > 0''))"
  by (simp add: pipeline_defs run_simps fixed_defs)

text \<open>
  Away from that case the pipeline does what the claim says: when the cutout, as the
  segmenter returns it, is at least two pixels wide and two pixels high, the background is
  fitted (zoomed by 1.35, then cropped and resized) to exactly the cutout's size, and
  \<open>composite_on_background\<close> returns an RGB image of exactly that width and height.
\<close>

lemma composite_size:
  assumes dec: "snd (decode_inputs env foreground_b64 background_b64) = Inr (foreground, background)"
    and seg: "snd (segment env foreground) = Inr cutout"
    and bgsz: "1 \<le> width background" "1 \<le> height background"
    and cusz: "2 \<le> width cutout" "2 \<le> height cutout"
    and px: "bg_luma_pixel env \<noteq> Px_tuple []" "fg_luma_pixel env \<noteq> Px_tuple []"
  shows "snd (fit_background background cutout) =
           Inr \<lparr>mode = Mode_RGBA, width = width cutout, height = height cutout\<rparr> \<and>
         snd (composite_on_background env foreground_b64 background_b64) =
           Inr \<lparr>mode = Mode_RGB, width = width cutout, height = height cutout\<rparr>"
proof -
  let ?bg = "\<lparr>mode = mode background, width = width cutout, height = height cutout\<rparr>"
  have fitb: "snd (fit_background background cutout) = Inr ?bg"
    using fit_background_ok bgsz cusz by simp
  obtain fg0 where fg0: "snd (scale_subject cutout) = Inr fg0" "mode fg0 = mode cutout"
      "1 \<le> width fg0" "1 \<le> height fg0"
    using scale_subject_ok [OF cusz] by blast
  have sh: "snd (ground_shadow fg0) = Inr \<lparr>mode = Mode_RGBA, width = width fg0, height = height fg0\<rparr>"
    using ground_shadow_ok fg0 by simp
  have lum: "snd (match_luminance env fg0) = Inr fg0"
    using match_luminance_ok [OF px] .
  have modes: "mode background = Mode_RGBA" "mode fg0 = Mode_RGBA"
    using decode_inputs_modes [OF dec] segment_mode [OF seg] fg0(2) by simp_all
  have "snd (composite_on_background env foreground_b64 background_b64) =
          Inr \<lparr>mode = Mode_RGB, width = width cutout, height = height cutout\<rparr>"
    by (simp add: composite_on_background_def snd_and_then dec seg fitb fg0(1) sh lum Let_def
          alpha_composite_def modes convert_def)
  then show ?thesis
    using fitb modes by simp
qed

lemma composite_size_example:
  "snd (decode_inputs
          (fixed_env (rgb_image 800 1200) (rgb_image 1000 1000) (Out_image (rgba_image 800 1200)))
          ''fg'' ''bg'') = Inr (rgba_image 800 1200, rgba_image 1000 1000) \<and>
   snd (segment
          (fixed_env (rgb_image 800 1200) (rgb_image 1000 1000) (Out_image (rgba_image 800 1200)))
          (rgba_image 800 1200)) = Inr (rgba_image 800 1200) \<and>
   snd (fit_background (rgba_image 1000 1000) (rgba_image 800 1200)) = Inr (rgba_image 800 1200) \<and>
   snd (composite_on_background
          (fixed_env (rgb_image 800 1200) (rgb_image 1000 1000) (Out_image (rgba_image 800 1200)))
          ''fg'' ''bg'') = Inr (rgb_image 800 1200)"
proof -
  let ?env = "fixed_env (rgb_image 800 1200) (rgb_image 1000 1000) (Out_image (rgba_image 800 1200))"
  have dec: "snd (decode_inputs ?env ''fg'' ''bg'') = Inr (rgba_image 800 1200, rgba_image 1000 1000)"
    by (simp add: decode_inputs_def decode_b64_def open_rgba_def convert_def run_simps fixed_defs)
  have seg: "snd (segment ?env (rgba_image 800 1200)) = Inr (rgba_image 800 1200)"
    by (simp add: segment_def convert_def run_simps fixed_defs)
  have sz: "1 \<le> width (rgba_image 1000 1000)" "1 \<le> height (rgba_image 1000 1000)"
    "2 \<le> width (rgba_image 800 1200)" "2 \<le> height (rgba_image 800 1200)"
    by (simp_all add: rgba_image_def)
  have px: "bg_luma_pixel ?env \<noteq> Px_tuple []" "fg_luma_pixel ?env \<noteq> Px_tuple []"
    by (simp_all add: fixed_env_def)
  show ?thesis
    using composite_size [OF dec seg sz px] dec seg
    by (simp add: rgba_image_def rgb_image_def)
qed

text \<open>
  C4. When the segmenter returns a value that is neither bytes, nor a Pillow image, nor a
  numpy array, \<open>composite_on_background\<close> ends with the \<open>TypeError\<close> "Unexpected rembg
  output type" (the segmentation error of the pipeline). The calls made up to then are the
  decoding of the two inputs, the PNG encoding of the foreground and the segmenter call:
  no resize, fit, shadow, brightness or blending call is made and no output is encoded.
  The inputs are values (base64 strings); nothing can modify them.
\<close>

theorem unsupported_segmenter_output:
  assumes "snd (decode_inputs env foreground_b64 background_b64) = Inr (foreground, background)"
    and "rembg_remove env (save_png env foreground) ''u2net''
           \<lparr>alpha_matting = True,
            alpha_matting_foreground_threshold = 240,
            alpha_matting_background_threshold = 10,
            alpha_matting_erode_size = 10\<rparr> = Inr (Out_other ty)"
  shows "composite_on_background env foreground_b64 background_b64 =
    ([B64decode, B64decode, Image_open, Convert Mode_RGBA, Image_open, Convert Mode_RGBA,
      Save_PNG, Rembg_new_session ''u2net'', Rembg_remove],
     Inl (TypeError (''Unexpected rembg output type: '' @ ty)))"
proof -
  have "fst (decode_inputs env foreground_b64 background_b64) =
    [B64decode, B64decode, Image_open, Convert Mode_RGBA, Image_open, Convert Mode_RGBA]"
    using assms(1)
    by (auto simp: decode_inputs_def decode_b64_def open_rgba_def run_simps
             split: option.splits)
  then have d: "decode_inputs env foreground_b64 background_b64 =
    ([B64decode, B64decode, Image_open, Convert Mode_RGBA, Image_open, Convert Mode_RGBA],
     Inr (foreground, background))"
    using assms(1)
    by (cases "decode_inputs env foreground_b64 background_b64") simp
  have s: "segment env foreground =
    ([Save_PNG, Rembg_new_session ''u2net'', Rembg_remove],
     Inl (TypeError (''Unexpected rembg output type: '' @ ty)))"
    by (simp add: segment_def run_simps assms(2))
  show ?thesis
    by (simp add: composite_on_background_def d s and_then_Inr and_then_Inl)
qed

theorem unsupported_segmenter_output_witness:
  "snd (decode_inputs (fixed_env (rgb_image 800 1200) (rgb_image 1000 1000) (Out_other ''dict''))
          ''fg'' ''bg'') = Inr (rgba_image 800 1200, rgba_image 1000 1000) \<and>
   composite_on_background (fixed_env (rgb_image 800 1200) (rgb_image 1000 1000) (Out_other ''dict''))
       ''fg'' ''bg'' =
     ([B64decode, B64decode, Image_open, Convert Mode_RGBA, Image_open, Convert Mode_RGBA,
       Save_PNG, Rembg_new_session ''u2net'', Rembg_remove],
      Inl (TypeError ''Unexpected rembg output type: dict''))"
proof -
  let ?env = "fixed_env (rgb_image 800 1200) (rgb_image 1000 1000) (Out_other ''dict'')"
  have dec: "snd (decode_inputs ?env ''fg'' ''bg'') = Inr (rgba_image 800 1200, rgba_image 1000 1000)"
    by (simp add: decode_inputs_def decode_b64_def open_rgba_def convert_def run_simps fixed_defs)
  have rem: "rembg_remove ?env (save_png ?env (rgba_image 800 1200)) ''u2net''
           \<lparr>alpha_matting = True,
            alpha_matting_foreground_threshold = 240,
            alpha_matting_background_threshold = 10,
            alpha_matting_erode_size = 10\<rparr> = Inr (Out_other ''dict'')"
    by (simp add: fixed_env_def)
  show ?thesis
    using unsupported_segmenter_output [OF dec rem] dec by simp
qed

subsection \<open>Luminance matching\<close>

text \<open>
  C5. For every pair of luminances, and for every pair of pixel readings they come from,
  the luminance-matching step never raises \<open>ZeroDivisionError\<close>; every brightness factor
  it yields lies in the closed interval from 0.85 to 1.15; and it yields no factor (the
  subject is left unchanged) exactly when the subject luminance is not above zero, which is
  the guard of the division.
\<close>

theorem brightness_clamped:
  "brightness_factor bg_luma fg_luma \<noteq> Inl ZeroDivisionError \<and>
   luminance_matching bg_px fg_px \<noteq> Inl ZeroDivisionError \<and>
   (\<forall>f. brightness_factor bg_luma fg_luma = Inr (Some f) \<longrightarrow> 0.85 \<le> f \<and> f \<le> 1.15) \<and>
   (\<forall>f. luminance_matching bg_px fg_px = Inr (Some f) \<longrightarrow> 0.85 \<le> f \<and> f \<le> 1.15) \<and>
   (brightness_factor bg_luma fg_luma = Inr None \<longleftrightarrow> \<not> fg_luma > 0)"
proof -
  have a: "brightness_factor x y \<noteq> Inl ZeroDivisionError" for x y
    by (simp add: brightness_factor_def truediv_def)
  have b: "brightness_factor x y = Inr (Some f) \<Longrightarrow> 0.85 \<le> f \<and> f \<le> 1.15" for x y f
    by (auto simp: brightness_factor_def truediv_def max_def min_def split: if_splits)
  have c: "luminance_matching bg_px fg_px = Inl ZeroDivisionError \<Longrightarrow> False"
    using a
    by (auto simp: luminance_matching_def first_band_def
             split: sum.splits option.splits pixel_value.splits list.splits)
  have d: "luminance_matching bg_px fg_px = Inr (Some f) \<Longrightarrow> 0.85 \<le> f \<and> f \<le> 1.15" for f
    using b
    by (auto simp: luminance_matching_def split: sum.splits option.splits)
  have e: "brightness_factor bg_luma fg_luma = Inr None \<longleftrightarrow> \<not> fg_luma > 0"
    by (simp add: brightness_factor_def truediv_def)
  show ?thesis using a b c d e by blast
qed

theorem brightness_clamped_witness:
  "brightness_factor 255 1 = Inr (Some 1.15) \<and>
   luminance_matching (Px_int 10) (Px_tuple [200, 200, 200]) = Inr (Some 0.85) \<and>
   (0.85::real) \<le> 1.15 \<and>
   brightness_factor 128 0 = Inr None \<and>
   luminance_matching (Px_int 128) (Px_int 0) = Inr None \<and>
   \<not> (0::real) < 0"
  using brightness_clamped [of 255 1 "Px_int 10" "Px_tuple [200, 200, 200]"]
        brightness_clamped [of 128 0 "Px_int 128" "Px_int 0"]
  by (simp add: brightness_factor_def luminance_matching_def first_band_def truediv_def)

subsection \<open>Edge cleanup\<close>

lemma lut_nth:
  fixes p :: "8 word"
  shows "map (\<lambda>i. clip8 (f i)) [0..255] ! unat p = clip8 (f (uint p))"
proof -
  have lt: "unat p < 256" using unsigned_less [of p] by simp
  have "[0..255] ! unat p = 0 + int (unat p)"
    by (rule nth_upto) (use lt in linarith)
  then show ?thesis using lt by (simp add: nth_map)
qed

lemma point_eq: "point f band = map (\<lambda>p. clip8 (f (uint p))) band"
  by (simp add: point_def Let_def lut_nth)

lemma uint_clip8: "uint (clip8 v) = max 0 (min 255 v)"
  by (simp add: clip8_def uint_word_of_int take_bit_eq_mod)

lemma edge_cleanup_range:
  "0 \<le> a \<Longrightarrow> a \<le> 255 \<Longrightarrow> 0 \<le> edge_cleanup a \<and> edge_cleanup a \<le> 255"
  by (simp add: edge_cleanup_def)

lemma uint_8_range:
  fixes p :: "8 word"
  shows "0 \<le> uint p \<and> uint p \<le> 255"
  using uint_lt2p [of p] by simp

lemma point_edge_nth:
  assumes "i < length band"
  shows "uint (point edge_cleanup band ! i) = edge_cleanup (uint (band ! i))"
  using assms edge_cleanup_range [of "uint (band ! i)"] uint_8_range [of "band ! i"]
  by (simp add: point_eq uint_clip8)

text \<open>
  C6. The alpha rule \<open>f(a) = 255 if a > 200 else a\<close> is idempotent, \<open>f (f a) = f a\<close> for
  every \<open>a\<close> (so for every alpha value from 0 to 255), and applying it through \<open>point\<close>
  twice to an alpha band gives exactly the band that applying it once gives.
\<close>

theorem edge_cleanup_idempotent:
  "edge_cleanup (edge_cleanup a) = edge_cleanup a \<and>
   point edge_cleanup (point edge_cleanup band) = point edge_cleanup band"
proof -
  have 1: "edge_cleanup (edge_cleanup x) = edge_cleanup x" for x
    by (simp add: edge_cleanup_def)
  have 2: "clip8 (edge_cleanup (uint (clip8 (edge_cleanup (uint p))))) = clip8 (edge_cleanup (uint p))"
    for p :: "8 word"
  proof -
    have "uint (clip8 (edge_cleanup (uint p))) = edge_cleanup (uint p)"
      using edge_cleanup_range [of "uint p"] uint_8_range [of p] by (simp add: uint_clip8)
    then show ?thesis by (simp add: 1)
  qed
  show ?thesis by (simp add: 1 2 point_eq)
qed

text \<open>
  C9. Edge cleanup never lowers opacity. For every alpha value \<open>a\<close> from 0 to 255,
  \<open>f a \<ge> a\<close>, and \<open>f 0 = 0\<close>; on an alpha band, every pixel of the cleaned band is at
  least as opaque as before, and every fully transparent pixel stays fully transparent.
\<close>

theorem edge_cleanup_never_less_opaque:
  assumes "0 \<le> a" and "a \<le> 255"
  shows "a \<le> edge_cleanup a \<and> edge_cleanup 0 = 0 \<and>
         length (point edge_cleanup band) = length band \<and>
         (\<forall>i<length band. band ! i \<le> point edge_cleanup band ! i \<and>
             (band ! i = 0 \<longrightarrow> point edge_cleanup band ! i = 0))"
proof -
  have 1: "a \<le> edge_cleanup a" using assms by (simp add: edge_cleanup_def)
  have 2: "edge_cleanup 0 = 0" by (simp add: edge_cleanup_def)
  have 3: "length (point edge_cleanup band) = length band" by (simp add: point_eq)
  have 4: "band ! i \<le> point edge_cleanup band ! i" if "i < length band" for i
  proof -
    have "uint (band ! i) \<le> edge_cleanup (uint (band ! i))"
      using uint_8_range [of "band ! i"] by (simp add: edge_cleanup_def)
    then show ?thesis
      using point_edge_nth [OF that] by (simp add: word_le_def)
  qed
  have 5: "point edge_cleanup band ! i = 0" if "i < length band" "band ! i = 0" for i
  proof -
    have "uint (point edge_cleanup band ! i) = 0"
      using point_edge_nth [OF that(1)] that(2) by (simp add: edge_cleanup_def)
    then show ?thesis by (simp add: uint_0_iff)
  qed
  show ?thesis using 1 2 3 4 5 by blast
qed

theorem edge_cleanup_never_less_opaque_witness:
  "(0::int) \<le> 201 \<and> (201::int) \<le> 255 \<and> 201 \<le> edge_cleanup 201 \<and> edge_cleanup 201 = 255 \<and>
   edge_cleanup 0 = 0 \<and>
   length (point edge_cleanup [0, 100, 201, 255]) = 4 \<and>
   (201::8 word) \<le> point edge_cleanup [0, 100, 201, 255] ! 2 \<and>
   point edge_cleanup [0, 100, 201, 255] ! 0 = 0"
proof -
  have h: "(0::int) \<le> 201" "(201::int) \<le> 255" by simp_all
  note t = edge_cleanup_never_less_opaque [OF h, of "[0, 100, 201, 255]"]
  have a: "201 \<le> edge_cleanup 201" "edge_cleanup 0 = 0"
    "length (point edge_cleanup [0, 100, 201, 255]) = length [0, 100, 201, 255 :: 8 word]"
    using t by blast+
  have q: "\<forall>i<length [0, 100, 201, 255 :: 8 word].
      [0, 100, 201, 255] ! i \<le> point edge_cleanup [0, 100, 201, 255] ! i \<and>
      ([0, 100, 201, 255 :: 8 word] ! i = 0 \<longrightarrow> point edge_cleanup [0, 100, 201, 255] ! i = 0)"
    using t by blast
  have b: "(201::8 word) \<le> point edge_cleanup [0, 100, 201, 255] ! 2"
    using q [rule_format, of 2] by simp
  have c: "point edge_cleanup [0, 100, 201, 255] ! 0 = 0"
    using q [rule_format, of 0] by simp
  show ?thesis using a b c by (simp add: edge_cleanup_def)
qed

subsection \<open>Thumbnails\<close>

lemma round_aspect_bounds:
  assumes "0 < t"
  shows "1 \<le> round_aspect t key \<and> round_aspect t key \<le> \<lceil>t\<rceil> \<and>
         \<bar>real_of_int (round_aspect t key) - t\<bar> < 1"
proof -
  have c1: "1 \<le> \<lceil>t\<rceil>" using assms by (simp add: le_ceiling_iff)
  have f0: "0 \<le> \<lfloor>t\<rfloor>" using assms by simp
  have fc: "\<lfloor>t\<rfloor> \<le> \<lceil>t\<rceil>" by (rule floor_le_ceiling)
  have cb: "real_of_int \<lceil>t\<rceil> - 1 < t \<and> t \<le> real_of_int \<lceil>t\<rceil>"
    using ceiling_correct [of t] by simp
  have fb: "real_of_int \<lfloor>t\<rfloor> \<le> t \<and> t < real_of_int \<lfloor>t\<rfloor> + 1"
    using floor_correct [of t] by simp
  show ?thesis
  proof (cases "key \<lceil>t\<rceil> < key \<lfloor>t\<rfloor>")
    case True
    then have "round_aspect t key = \<lceil>t\<rceil>"
      using c1 by (simp add: round_aspect_def Let_def)
    then show ?thesis using c1 cb by simp
  next
    case False
    then have r: "round_aspect t key = max \<lfloor>t\<rfloor> 1"
      by (simp add: round_aspect_def Let_def)
    show ?thesis
    proof (cases "1 \<le> \<lfloor>t\<rfloor>")
      case True
      then have e: "round_aspect t key = \<lfloor>t\<rfloor>" using r by simp
      have "\<bar>real_of_int \<lfloor>t\<rfloor> - t\<bar> < 1" using fb by linarith
      then show ?thesis using True fc e by simp
    next
      case False
      then have z: "\<lfloor>t\<rfloor> = 0" using f0 by linarith
      then have "round_aspect t key = 1" using r by simp
      moreover have "t < 1" using fb z by simp
      ultimately show ?thesis using c1 assms by simp
    qed
  qed
qed

lemma resize_to:
  assumes "1 \<le> x" "1 \<le> y"
  shows "\<exists>out. (if size_of im \<noteq> (x, y) then resize im (x, y) else Inr im) = Inr out \<and>
           mode out = mode im \<and> width out = x \<and> height out = y"
  using assms by (auto simp: resize_def size_of_def)

lemma thumbnail_bounds:
  assumes w: "1 \<le> width im" and h: "1 \<le> height im" and m: "1 \<le> m"
  shows "\<exists>out. thumbnail im (m, m) = Inr out \<and> mode out = mode im \<and>
           1 \<le> width out \<and> width out \<le> width im \<and>
           1 \<le> height out \<and> height out \<le> height im \<and>
           (m < width im \<longrightarrow> width out \<le> m) \<and>
           (m < height im \<longrightarrow> height out \<le> m) \<and>
           (size_of out = size_of im \<or>
            (height out = m \<and>
             \<bar>real_of_int (width out) -
              real_of_int m * real_of_int (width im) / real_of_int (height im)\<bar> < 1) \<or>
            (width out = m \<and>
             \<bar>real_of_int (height out) -
              real_of_int m * real_of_int (height im) / real_of_int (width im)\<bar> < 1))"
proof -
  let ?w = "real_of_int (width im)" and ?h = "real_of_int (height im)" and ?m = "real_of_int m"
  have pos: "0 < ?w" "0 < ?h" "0 < ?m" using w h m by simp_all
  consider (same) "m \<ge> width im \<and> m \<ge> height im"
    | (tall) "\<not> (m \<ge> width im \<and> m \<ge> height im)" "width im \<le> height im"
    | (wide) "\<not> (m \<ge> width im \<and> m \<ge> height im)" "height im < width im"
    by linarith
  then show ?thesis
  proof cases
    case same
    then have "thumbnail im (m, m) = Inr im"
      by (simp add: thumbnail_def preserve_aspect_ratio_def Let_def)
    then show ?thesis using w h same by simp
  next
    case tall
    then have mh: "m < height im" by linarith
    let ?t = "?m * (?w / ?h)"
    let ?key = "\<lambda>n. \<bar>?w / ?h - real_of_int n / ?m\<bar>"
    have asp: "?w / ?h \<le> 1" using tall(2) pos by simp
    have tpos: "0 < ?t" using pos by simp
    have t_le_m: "?t \<le> ?m"
      using asp pos mult_left_mono [of "?w / ?h" 1 ?m] by simp
    have t_le_w: "?t \<le> ?w"
    proof -
      have "?m / ?h \<le> 1" using mh pos by simp
      then have "?w * (?m / ?h) \<le> ?w * 1"
        using pos by (intro mult_left_mono) simp_all
      then show ?thesis by (simp add: mult.commute)
    qed
    have ra: "1 \<le> round_aspect ?t ?key" "round_aspect ?t ?key \<le> \<lceil>?t\<rceil>"
      "\<bar>real_of_int (round_aspect ?t ?key) - ?t\<bar> < 1"
      using round_aspect_bounds [OF tpos, of ?key] by simp_all
    have cw: "\<lceil>?t\<rceil> \<le> width im" using t_le_w by (simp add: ceiling_le_iff)
    have cm: "\<lceil>?t\<rceil> \<le> m" using t_le_m by (simp add: ceiling_le_iff)
    have p: "preserve_aspect_ratio im (m, m) = Inr (Some (round_aspect ?t ?key, m))"
      using tall(1) asp pos
      by (simp add: preserve_aspect_ratio_def Let_def truediv_def)
    have th: "thumbnail im (m, m) =
        (if size_of im \<noteq> (round_aspect ?t ?key, m) then resize im (round_aspect ?t ?key, m)
         else Inr im)"
      by (simp only: thumbnail_def p sum.case option.case)
    obtain out where out: "thumbnail im (m, m) = Inr out" "mode out = mode im"
        "width out = round_aspect ?t ?key" "height out = m"
      using resize_to [OF ra(1) m, of im] unfolding th by blast
    have "\<bar>real_of_int (width out) - ?m * ?w / ?h\<bar> < 1"
      using ra(3) out(3) by simp
    then show ?thesis
      using out ra cw cm mh m by auto
  next
    case wide
    then have mw: "m < width im" by linarith
    let ?a = "?w / ?h"
    let ?t = "?m / ?a"
    let ?key = "\<lambda>n. if n = 0 then 0 else \<bar>?a - ?m / real_of_int n\<bar>"
    have asp: "1 < ?a" using wide(2) pos by simp
    have teq: "?t = ?m * ?h / ?w" by simp
    have tpos: "0 < ?t" using pos by simp
    have t_le_m: "?t \<le> ?m"
    proof -
      have "?h / ?w \<le> 1" using wide(2) pos by simp
      then have "?m * (?h / ?w) \<le> ?m * 1"
        using pos by (intro mult_left_mono) simp_all
      then show ?thesis by (simp add: teq)
    qed
    have t_le_h: "?t \<le> ?h"
    proof -
      have "?m / ?w \<le> 1" using mw pos by simp
      then have "?h * (?m / ?w) \<le> ?h * 1"
        using pos by (intro mult_left_mono) simp_all
      then show ?thesis by (simp add: teq mult.commute)
    qed
    have ra: "1 \<le> round_aspect ?t ?key" "round_aspect ?t ?key \<le> \<lceil>?t\<rceil>"
      "\<bar>real_of_int (round_aspect ?t ?key) - ?t\<bar> < 1"
      using round_aspect_bounds [OF tpos, of ?key] by simp_all
    have ch: "\<lceil>?t\<rceil> \<le> height im" using t_le_h by (simp add: ceiling_le_iff)
    have cm: "\<lceil>?t\<rceil> \<le> m" using t_le_m by (simp add: ceiling_le_iff)
    have p: "preserve_aspect_ratio im (m, m) = Inr (Some (m, round_aspect ?t ?key))"
      using wide(1) asp pos
      by (simp add: preserve_aspect_ratio_def Let_def truediv_def)
    have th: "thumbnail im (m, m) =
        (if size_of im \<noteq> (m, round_aspect ?t ?key) then resize im (m, round_aspect ?t ?key)
         else Inr im)"
      by (simp only: thumbnail_def p sum.case option.case)
    obtain out where out: "thumbnail im (m, m) = Inr out" "mode out = mode im"
        "width out = m" "height out = round_aspect ?t ?key"
      using resize_to [OF m ra(1), of im] unfolding th by blast
    have "\<bar>real_of_int (height out) - ?m * ?h / ?w\<bar> < 1"
      using ra(3) out(4) teq by simp
    then show ?thesis
      using out ra ch cm mw m by auto
  qed
qed

lemmas thumbnail_defs = resize_and_encode_def decode_b64_def convert_def thumbnail_def
  preserve_aspect_ratio_def truediv_def round_aspect_def resize_def size_of_def Let_def

text \<open>
  C10, as the claim states it, fails in its third part: the aspect ratio is not preserved
  exactly. A 3000 by 2000 image with the default \<open>max_dim = 1280\<close> comes out 1280 by 853,
  and \<open>3000 / 2000\<close> is not \<open>1280 / 853\<close>.
\<close>

theorem thumbnail_aspect_rounded:
  "resize_and_encode
     (fixed_env (rgb_image 3000 2000) (rgb_image 4 4) (Out_image (rgba_image 4 4))) ''fg'' 1280 =
   ([B64decode, Image_open, Convert Mode_RGB, Thumbnail (1280, 1280), Save_JPEG 90, B64encode],
    Inr (rgb_image 1280 853)) \<and>
   (3000::real) / 2000 \<noteq> 1280 / 853"
  by (simp add: thumbnail_defs run_simps fixed_defs)

text \<open>
  C10, amended. For every decodable base64-encoded input image and every positive
  \<open>max_dim\<close>, \<open>resize_and_encode\<close> never upscales: the output's width and height each
  never exceed the input's, and each is at most \<open>max_dim\<close> whenever the corresponding
  input dimension exceeds \<open>max_dim\<close>. The aspect ratio is preserved up to rounding to
  whole pixels: either the size is unchanged, or the longer side becomes \<open>max_dim\<close> and
  the other side differs from the exactly proportional length by less than one pixel (and
  is at least one pixel). The result is converted to RGB and encoded as a JPEG.
\<close>

theorem resize_and_encode_bounds:
  assumes "b64decode env base64_str = Some image_bytes"
    and "image_open env image_bytes = Some im"
    and "1 \<le> width im" and "1 \<le> height im" and "1 \<le> max_dim"
  shows "\<exists>out. resize_and_encode env base64_str max_dim =
           ([B64decode, Image_open, Convert Mode_RGB, Thumbnail (max_dim, max_dim),
             Save_JPEG 90, B64encode], Inr out) \<and>
           mode out = Mode_RGB \<and>
           1 \<le> width out \<and> width out \<le> width im \<and>
           1 \<le> height out \<and> height out \<le> height im \<and>
           (max_dim < width im \<longrightarrow> width out \<le> max_dim) \<and>
           (max_dim < height im \<longrightarrow> height out \<le> max_dim) \<and>
           (size_of out = size_of im \<or>
            (height out = max_dim \<and>
             \<bar>real_of_int (width out) -
              real_of_int max_dim * real_of_int (width im) / real_of_int (height im)\<bar> < 1) \<or>
            (width out = max_dim \<and>
             \<bar>real_of_int (height out) -
              real_of_int max_dim * real_of_int (height im) / real_of_int (width im)\<bar> < 1))"
proof -
  let ?rgb = "convert im Mode_RGB"
  have sz: "width ?rgb = width im" "height ?rgb = height im" "mode ?rgb = Mode_RGB"
    "size_of ?rgb = size_of im"
    by (simp_all add: convert_def size_of_def)
  obtain out where out: "thumbnail ?rgb (max_dim, max_dim) = Inr out" "mode out = mode ?rgb"
    "1 \<le> width out" "width out \<le> width ?rgb" "1 \<le> height out" "height out \<le> height ?rgb"
    "max_dim < width ?rgb \<longrightarrow> width out \<le> max_dim"
    "max_dim < height ?rgb \<longrightarrow> height out \<le> max_dim"
    "size_of out = size_of ?rgb \<or>
     (height out = max_dim \<and>
      \<bar>real_of_int (width out) -
       real_of_int max_dim * real_of_int (width ?rgb) / real_of_int (height ?rgb)\<bar> < 1) \<or>
     (width out = max_dim \<and>
      \<bar>real_of_int (height out) -
       real_of_int max_dim * real_of_int (height ?rgb) / real_of_int (width ?rgb)\<bar> < 1)"
    using thumbnail_bounds [of ?rgb max_dim] assms(3-5) unfolding sz by blast
  have run: "resize_and_encode env base64_str max_dim =
      ([B64decode, Image_open, Convert Mode_RGB, Thumbnail (max_dim, max_dim),
        Save_JPEG 90, B64encode], Inr out)"
    by (simp add: resize_and_encode_def decode_b64_def run_simps assms(1,2) out(1))
  show ?thesis
    using run out unfolding sz by blast
qed

theorem resize_and_encode_bounds_witness:
  "b64decode (fixed_env (rgb_image 4000 1000) (rgb_image 4 4) (Out_image (rgba_image 4 4))) ''fg'' =
     Some ''fg'' \<and>
   image_open (fixed_env (rgb_image 4000 1000) (rgb_image 4 4) (Out_image (rgba_image 4 4))) ''fg'' =
     Some (rgb_image 4000 1000) \<and>
   resize_and_encode
     (fixed_env (rgb_image 4000 1000) (rgb_image 4 4) (Out_image (rgba_image 4 4))) ''fg'' 1280 =
   ([B64decode, Image_open, Convert Mode_RGB, Thumbnail (1280, 1280), Save_JPEG 90, B64encode],
    Inr (rgb_image 1280 320)) \<and>
   (1280::int) \<le> 4000 \<and> (320::int) \<le> 1000 \<and> (320::int) \<le> 1280"
proof -
  let ?env = "fixed_env (rgb_image 4000 1000) (rgb_image 4 4) (Out_image (rgba_image 4 4))"
  have d: "b64decode ?env ''fg'' = Some ''fg''" "image_open ?env ''fg'' = Some (rgb_image 4000 1000)"
    by (simp_all add: fixed_env_def)
  have s: "1 \<le> width (rgb_image 4000 1000)" "1 \<le> height (rgb_image 4000 1000)" "(1::int) \<le> 1280"
    by (simp_all add: rgb_image_def)
  obtain out where out: "resize_and_encode ?env ''fg'' 1280 =
      ([B64decode, Image_open, Convert Mode_RGB, Thumbnail (1280, 1280), Save_JPEG 90, B64encode],
       Inr out)"
    "width out \<le> width (rgb_image 4000 1000)" "height out \<le> height (rgb_image 4000 1000)"
    using resize_and_encode_bounds [OF d s] by blast
  have "snd (resize_and_encode ?env ''fg'' 1280) = Inr (rgb_image 1280 320)"
    by (simp add: thumbnail_defs run_simps fixed_defs)
  then have "out = rgb_image 1280 320" using out(1) by simp
  then show ?thesis using out d by simp
qed

end
